theory Spec2Isabelle
  imports Complex_Main "HOL-Library.Word"
begin

section \<open>JavaScript strings\<close>

text \<open>
  A JavaScript string is a sequence of UTF-16 code units and \<open>length\<close> counts code
  units, so a string is a list of 16-bit words.  The literals of the source are ASCII and
  are written with \<open>lit\<close>.
\<close>

type_synonym js_char = "16 word"
type_synonym js_string = "js_char list"

definition lit :: "string \<Rightarrow> js_string" where
  "lit s = map of_char s"

definition space :: js_char where
  "space = 0x20"

definition quote :: js_char where
  "quote = 0x27"

text \<open>
  The class \<open>\s\<close> of a regular expression and the characters removed by
  \<open>String.prototype.trim\<close> are the same set: the ECMAScript \<open>WhiteSpace\<close> and
  \<open>LineTerminator\<close> code points (tab, LF, VT, FF, CR, space, NBSP, U+1680,
  U+2000..U+200A, U+2028, U+2029, U+202F, U+205F, U+3000 and U+FEFF).
\<close>

definition is_whitespace :: "js_char \<Rightarrow> bool" where
  "is_whitespace c \<longleftrightarrow>
     c \<in> {0x9, 0xA, 0xB, 0xC, 0xD, 0x20, 0xA0, 0x1680, 0x2028, 0x2029,
          0x202F, 0x205F, 0x3000, 0xFEFF}
     \<or> (0x2000 \<le> c \<and> c \<le> 0x200A)"

text \<open>\<open>s.startsWith(p)\<close> and \<open>s.includes(p)\<close>.\<close>

fun starts_with :: "js_string \<Rightarrow> js_string \<Rightarrow> bool" where
  "starts_with s [] = True"
| "starts_with [] (p # ps) = False"
| "starts_with (c # cs) (p # ps) = (c = p \<and> starts_with cs ps)"

fun js_includes :: "js_string \<Rightarrow> js_string \<Rightarrow> bool" where
  "js_includes [] p = (p = [])"
| "js_includes (c # cs) p = (starts_with (c # cs) p \<or> js_includes cs p)"

text \<open>The decimal rendering of a non-negative integer inside a template literal.\<close>

definition digit_char :: "nat \<Rightarrow> js_char" where
  "digit_char d = of_nat (48 + d)"

function number_toString :: "nat \<Rightarrow> js_string" where
  "number_toString n =
     (if n < 10 then [digit_char n]
      else number_toString (n div 10) @ [digit_char (n mod 10)])"
  by pat_completeness auto
termination
  by (relation "measure id") auto

section \<open>Sanitising the message (server, \<open>sanitizeInput\<close>)\<close>

text \<open>\<open>input.replace(/\0/g, ' ')\<close>: every NUL code unit becomes a space.\<close>

definition replace_nulls :: "js_string \<Rightarrow> js_string" where
  "replace_nulls s = map (\<lambda>c. if c = 0 then space else c) s"

text \<open>\<open>sanitized.trim()\<close>: white space is dropped at both ends.\<close>

definition trim :: "js_string \<Rightarrow> js_string" where
  "trim s = rev (dropWhile is_whitespace (rev (dropWhile is_whitespace s)))"

text \<open>
  \<open>sanitized.replace(/\s+/g, ' ')\<close>: scanning from the left, each maximal run of white
  space (the match of the greedy \<open>\s+\<close>) is replaced by one space.
\<close>

function collapse_whitespace :: "js_string \<Rightarrow> js_string" where
  "collapse_whitespace [] = []"
| "collapse_whitespace (c # cs) =
     (if is_whitespace c then space # collapse_whitespace (dropWhile is_whitespace cs)
      else c # collapse_whitespace cs)"
  by pat_completeness auto
termination
  by (relation "measure length") (auto simp: length_dropWhile_le less_Suc_eq_le)

definition sanitizeInput :: "js_string \<Rightarrow> js_string" where
  "sanitizeInput input = collapse_whitespace (trim (replace_nulls input))"

subsection \<open>The normal form the specification describes\<close>

text \<open>
  The specification calls the result the trimmed, null-stripped, single-spaced
  normalisation of the message.  Stated on its own, without the passes of the code: a
  character separates words when it is the null character or white space; the words of
  a message are its maximal runs of characters that do not separate; the normal form is
  the words, in their order, joined by single spaces.  So a null character counts as
  a space, nothing but a word stands at either end, and exactly one space stands between
  two words.
\<close>

definition is_separator :: "js_char \<Rightarrow> bool" where
  "is_separator c \<longleftrightarrow> c = 0 \<or> is_whitespace c"

function spec_words :: "js_string \<Rightarrow> js_string list" where
  "spec_words s =
     (case dropWhile is_separator s of
        [] \<Rightarrow> []
      | c # cs \<Rightarrow> (c # takeWhile (\<lambda>x. \<not> is_separator x) cs)
                  # spec_words (dropWhile (\<lambda>x. \<not> is_separator x) cs))"
  by pat_completeness auto
termination
proof (relation "measure length", goal_cases)
  case 1
  show ?case by simp
next
  case (2 s c cs)
  have "length (dropWhile (\<lambda>x. \<not> is_separator x) cs) \<le> length cs"
    by (rule length_dropWhile_le)
  moreover have "length (dropWhile is_separator s) \<le> length s"
    by (rule length_dropWhile_le)
  ultimately show ?case using 2 by simp
qed

fun join_spaced :: "js_string list \<Rightarrow> js_string" where
  "join_spaced [] = []"
| "join_spaced [w] = w"
| "join_spaced (w # v # ws) = w @ space # join_spaced (v # ws)"

definition normalize_spec :: "js_string \<Rightarrow> js_string" where
  "normalize_spec m = join_spaced (spec_words m)"

subsection \<open>Auxiliary notions of the proofs\<close>

text \<open>
  The words of a text when only white space separates them, and trimming at the right
  end only.
\<close>

function tokens :: "js_string \<Rightarrow> js_string list" where
  "tokens s =
     (case dropWhile is_whitespace s of
        [] \<Rightarrow> []
      | c # cs \<Rightarrow> (c # takeWhile (\<lambda>x. \<not> is_whitespace x) cs)
                  # tokens (dropWhile (\<lambda>x. \<not> is_whitespace x) cs))"
  by pat_completeness auto
termination
proof (relation "measure length", goal_cases)
  case 1
  show ?case by simp
next
  case (2 s c cs)
  have "length (dropWhile (\<lambda>x. \<not> is_whitespace x) cs) \<le> length cs"
    by (rule length_dropWhile_le)
  moreover have "length (dropWhile is_whitespace s) \<le> length s"
    by (rule length_dropWhile_le)
  ultimately show ?case using 2 by simp
qed

definition trim_end :: "js_string \<Rightarrow> js_string" where
  "trim_end s = rev (dropWhile is_whitespace (rev s))"

section \<open>JSON values of a request body\<close>

text \<open>
  The handler receives the body as parsed by \<open>express.json()\<close>.  The fields it
  validates at run time (\<open>message\<close>, \<open>history\<close> and the history entries) are
  untyped JSON; an absent member reads as \<open>undefined\<close>, which is \<open>None\<close> here.
  A parsed object is the list of its members, each name once.  A number is kept as its
  value; only whether it is zero is ever looked at.
\<close>

datatype json =
    JNull
  | JBool bool
  | JNum real
  | JStr js_string
  | JArr "json list"
  | JObj "(js_string \<times> json) list"

text \<open>JavaScript truthiness, as used by \<open>!x\<close>, \<open>x && y\<close> and \<open>if (x)\<close>.\<close>

fun truthy :: "json option \<Rightarrow> bool" where
  "truthy None = False"
| "truthy (Some JNull) = False"
| "truthy (Some (JBool b)) = b"
| "truthy (Some (JNum r)) = (r \<noteq> 0)"
| "truthy (Some (JStr s)) = (s \<noteq> [])"
| "truthy (Some (JArr xs)) = True"
| "truthy (Some (JObj fs)) = True"

text \<open>An object, when present, is truthy; \<open>undefined\<close> is not.\<close>

fun object_truthy :: "'a option \<Rightarrow> bool" where
  "object_truthy None = False"
| "object_truthy (Some obj) = True"

fun string_truthy :: "js_string option \<Rightarrow> bool" where
  "string_truthy None = False"
| "string_truthy (Some s) = (s \<noteq> [])"

text \<open>\<open>typeof x === 'string'\<close>.\<close>

fun is_string :: "json option \<Rightarrow> bool" where
  "is_string (Some (JStr s)) = True"
| "is_string v = False"

text \<open>
  The property read \<open>v.k\<close> for \<open>k\<close> one of \<open>role\<close>, \<open>content\<close>: on \<open>null\<close> it throws
  a TypeError (\<open>Inl\<close>, with the message of V8); an object yields its member or
  \<open>undefined\<close>; numbers, booleans, strings and arrays have no such property.
\<close>

definition null_read_message :: "js_string \<Rightarrow> js_string" where
  "null_read_message k =
     lit ''Cannot read properties of null (reading '' @ [quote] @ k @ [quote] @ lit '')''"

fun get_prop :: "json \<Rightarrow> js_string \<Rightarrow> js_string + json option" where
  "get_prop JNull k = Inl (null_read_message k)"
| "get_prop (JObj fs) k = Inr (map_of fs k)"
| "get_prop v k = Inr None"

section \<open>Brand contexts and the session store (\<open>BrandContextStore\<close>)\<close>

text \<open>
  \<open>BrandContext\<close> has four optional string members.  An object may lack a member, or
  own it with the value \<open>undefined\<close> (\<open>Partial<BrandContext>\<close> allows both), or own it
  with a string: an object is a map from the member names it owns to their values, and
  the object spread \<open>{ ...a, ...b }\<close> is the map \<open>a ++ b\<close>, in which every own member
  of \<open>b\<close> wins, whatever its value.
\<close>

datatype ctx_field = BrandName | BrandVoice | TargetAudience | Industry

datatype field_value = Undefined | Text js_string

type_synonym brand_context = "ctx_field \<rightharpoonup> field_value"

text \<open>The member read \<open>ctx.f\<close>: \<open>undefined\<close> when the member is not owned.\<close>

definition read_field :: "brand_context \<Rightarrow> ctx_field \<Rightarrow> field_value" where
  "read_field ctx f = (case ctx f of None \<Rightarrow> Undefined | Some v \<Rightarrow> v)"

text \<open>
  The store is a \<open>Map\<close> from session ids to brand contexts.  A stored object is always
  truthy, so \<open>get\<close> answers \<open>undefined\<close> and \<open>update\<close> starts from \<open>{}\<close> exactly when
  the key is absent.  The copies \<open>{ ...context }\<close> made by \<open>set\<close> and \<open>get\<close> are
  \<open>Map.empty ++ context\<close>.
\<close>

type_synonym store = "js_string \<rightharpoonup> brand_context"

definition store_set :: "store \<Rightarrow> js_string \<Rightarrow> brand_context \<Rightarrow> store" where
  "store_set contexts sessionId ctx = contexts(sessionId \<mapsto> Map.empty ++ ctx)"

definition store_get :: "store \<Rightarrow> js_string \<Rightarrow> brand_context option" where
  "store_get contexts sessionId =
     (case contexts sessionId of
        None \<Rightarrow> None
      | Some ctx \<Rightarrow> Some (Map.empty ++ ctx))"

definition store_update :: "store \<Rightarrow> js_string \<Rightarrow> brand_context \<Rightarrow> store" where
  "store_update contexts sessionId ctx =
     (let existing = (case contexts sessionId of None \<Rightarrow> Map.empty | Some e \<Rightarrow> e)
      in contexts(sessionId \<mapsto> existing ++ ctx))"

definition store_has :: "store \<Rightarrow> js_string \<Rightarrow> bool" where
  "store_has contexts sessionId =
     (case contexts sessionId of None \<Rightarrow> False | Some ctx \<Rightarrow> True)"

definition store_delete :: "store \<Rightarrow> js_string \<Rightarrow> bool \<times> store" where
  "store_delete contexts sessionId =
     (store_has contexts sessionId, contexts(sessionId := None))"

definition store_clear :: "store \<Rightarrow> store" where
  "store_clear contexts = Map.empty"

section \<open>The chat endpoint (\<open>POST /api/chat\<close>)\<close>

text \<open>
  The body of a request.  \<open>message\<close> and \<open>history\<close> are checked by the handler and
  may be any JSON value or absent.  \<open>brandContext\<close> and \<open>sessionId\<close> are used as
  they come, at their declared types: an object or absent, a string or absent.
\<close>

record chat_request =
  req_message :: "json option"
  req_history :: "json option"
  req_brandContext :: "brand_context option"
  req_sessionId :: "js_string option"

text \<open>The HTTP status and the \<open>ChatResponse\<close> body the handler sends.\<close>

record http_reply =
  reply_status :: nat
  reply_success :: bool
  reply_response :: "js_string option"
  reply_error :: "js_string option"
  reply_sessionId :: "js_string option"

definition MAX_MESSAGE_LENGTH :: nat where
  "MAX_MESSAGE_LENGTH = 5000"

definition MAX_HISTORY_LENGTH :: nat where
  "MAX_HISTORY_LENGTH = 50"

definition bad_request :: "js_string \<Rightarrow> http_reply" where
  "bad_request msg =
     \<lparr>reply_status = 400, reply_success = False, reply_response = None, reply_error = Some msg,
      reply_sessionId = None\<rparr>"

text \<open>The \<open>catch\<close> of the handler: status 500 and the message of the error.\<close>

definition server_error :: "js_string \<Rightarrow> http_reply" where
  "server_error errorMessage =
     \<lparr>reply_status = 500, reply_success = False, reply_response = None,
      reply_error = Some (lit ''Failed to generate response: '' @ errorMessage),
      reply_sessionId = None\<rparr>"

text \<open>\<open>res.json(chatResponse)\<close>: status 200; the session id is a member only if truthy.\<close>

definition ok_reply :: "js_string \<Rightarrow> js_string option \<Rightarrow> http_reply" where
  "ok_reply text effectiveSessionId =
     \<lparr>reply_status = 200, reply_success = True, reply_response = Some text, reply_error = None,
      reply_sessionId = (if string_truthy effectiveSessionId then effectiveSessionId else None)\<rparr>"

definition msg_not_string :: js_string where
  "msg_not_string = lit ''Invalid request: message is required and must be a string''"

definition msg_empty :: js_string where
  "msg_empty = lit ''Invalid request: message cannot be empty''"

definition msg_too_long :: js_string where
  "msg_too_long =
     lit ''Invalid request: message exceeds maximum length of ''
     @ number_toString MAX_MESSAGE_LENGTH @ lit '' characters''"

definition msg_history_not_array :: js_string where
  "msg_history_not_array = lit ''Invalid request: history must be an array''"

definition msg_history_too_long :: js_string where
  "msg_history_too_long =
     lit ''Invalid request: history exceeds maximum length of ''
     @ number_toString MAX_HISTORY_LENGTH @ lit '' messages''"

definition msg_history_item :: js_string where
  "msg_history_item = lit ''Invalid request: history messages must have role and content''"

text \<open>
  The test \<open>!msg.role || !msg.content || typeof msg.content !== 'string'\<close> on one
  history entry, evaluated from the left: \<open>Inl\<close> is the TypeError of reading a member
  of \<open>null\<close>, \<open>Inr True\<close> means that the entry is refused.
\<close>

definition item_refused :: "json \<Rightarrow> js_string + bool" where
  "item_refused msg =
     (case get_prop msg (lit ''role'') of
        Inl e \<Rightarrow> Inl e
      | Inr role \<Rightarrow>
          if \<not> truthy role then Inr True
          else (case get_prop msg (lit ''content'') of
                  Inl e \<Rightarrow> Inl e
                | Inr content \<Rightarrow> Inr (\<not> truthy content \<or> \<not> is_string content)))"

text \<open>
  The loop over the history: it stops at the first entry that throws (\<open>Inl\<close>) or is
  refused (\<open>Inr (Some reply)\<close>, the early return); \<open>Inr None\<close> when it runs to the end.
\<close>

fun check_history_items :: "json list \<Rightarrow> js_string + http_reply option" where
  "check_history_items [] = Inr None"
| "check_history_items (msg # rest) =
     (case item_refused msg of
        Inl e \<Rightarrow> Inl e
      | Inr True \<Rightarrow> Inr (Some (bad_request msg_history_item))
      | Inr False \<Rightarrow> check_history_items rest)"

text \<open>
  The clock and the random source read when a session id is made:
  \<open>`session_${Date.now()}_${Math.random().toString(36).substr(2, 9)}`\<close>.
\<close>

record environment =
  now :: nat
  random_part :: js_string

definition new_session_id :: "environment \<Rightarrow> js_string" where
  "new_session_id env =
     lit ''session_'' @ number_toString (now env) @ lit ''_'' @ random_part env"

text \<open>
  The resolution of the brand context: the effective context, the effective session
  id and the store afterwards.  The context is a parsed object when it is present, and an
  object is truthy, also the empty one; the session id is truthy when it is a non-empty
  string.
\<close>

definition resolve_brand_context ::
  "environment \<Rightarrow> store \<Rightarrow> brand_context option \<Rightarrow> js_string option
     \<Rightarrow> brand_context option \<times> js_string option \<times> store" where
  "resolve_brand_context env contexts brandContext sessionId =
     (if object_truthy brandContext \<and> string_truthy sessionId then
        (brandContext, sessionId, store_set contexts (the sessionId) (the brandContext))
      else if \<not> object_truthy brandContext \<and> string_truthy sessionId
              \<and> store_has contexts (the sessionId) then
        (store_get contexts (the sessionId), sessionId, contexts)
      else if object_truthy brandContext \<and> \<not> string_truthy sessionId then
        (let effectiveSessionId = new_session_id env
         in (brandContext, Some effectiveSessionId,
             store_set contexts effectiveSessionId (the brandContext)))
      else (brandContext, sessionId, contexts))"

text \<open>
  The call \<open>generateContent(sanitizedMessage, history || [], effectiveBrandContext)\<close>.
\<close>

record generation_call =
  arg_userMessage :: js_string
  arg_conversationHistory :: "json list"
  arg_brandContext :: "brand_context option"

text \<open>
  What one run of the handler does: the reply it sends, the call of the content generator
  it made (if any), and the store afterwards.
\<close>

record handler_result =
  reply :: http_reply
  generated :: "generation_call option"
  contexts_after :: store

definition early_return :: "store \<Rightarrow> http_reply \<Rightarrow> handler_result" where
  "early_return contexts r = \<lparr>reply = r, generated = None, contexts_after = contexts\<rparr>"

text \<open>
  The second half of the handler, reached when the request is valid: the brand context is
  resolved, the generator is called and its result is sent.  The parameter \<open>race\<close> is
  the settled value of \<open>Promise.race([generationPromise, timeoutPromise])\<close> for a given
  call: \<open>Inr\<close> the generated text, \<open>Inl\<close> the message of the error it rejects with (an
  error of the generator, or \<open>Generation timeout\<close>).
\<close>

definition generate_and_reply ::
  "(generation_call \<Rightarrow> js_string + js_string) \<Rightarrow> environment \<Rightarrow> store \<Rightarrow> chat_request
     \<Rightarrow> js_string \<Rightarrow> json list \<Rightarrow> handler_result" where
  "generate_and_reply race env contexts req sanitizedMessage items =
     (case resolve_brand_context env contexts (req_brandContext req) (req_sessionId req) of
        (effectiveBrandContext, effectiveSessionId, contexts') \<Rightarrow>
          (let call = \<lparr>arg_userMessage = sanitizedMessage, arg_conversationHistory = items,
                       arg_brandContext = effectiveBrandContext\<rparr>
           in \<lparr>reply = (case race call of
                          Inl errorMessage \<Rightarrow> server_error errorMessage
                        | Inr text \<Rightarrow> ok_reply text effectiveSessionId),
               generated = Some call,
               contexts_after = contexts'\<rparr>))"

text \<open>
  The first half of the handler: the six checks in their order, each an early return
  with status 400 (\<open>Inl\<close>).  A TypeError thrown while the history is checked reaches
  the \<open>catch\<close> of the handler, which answers with status 500.  A valid request yields
  the sanitised message and the history entries (\<open>history || []\<close>).
\<close>

definition validate :: "chat_request \<Rightarrow> http_reply + js_string \<times> json list" where
  "validate req =
     (case req_message req of
        Some (JStr m) \<Rightarrow>
          (let sanitizedMessage = sanitizeInput m in
           if length sanitizedMessage = 0 then Inl (bad_request msg_empty)
           else if length sanitizedMessage > MAX_MESSAGE_LENGTH
             then Inl (bad_request msg_too_long)
           else
             (case req_history req of
                None \<Rightarrow> Inr (sanitizedMessage, [])
              | Some (JArr items) \<Rightarrow>
                  if length items > MAX_HISTORY_LENGTH
                    then Inl (bad_request msg_history_too_long)
                  else (case check_history_items items of
                          Inl e \<Rightarrow> Inl (server_error e)
                        | Inr (Some r) \<Rightarrow> Inl r
                        | Inr None \<Rightarrow> Inr (sanitizedMessage, items))
              | Some other \<Rightarrow> Inl (bad_request msg_history_not_array)))
      | other \<Rightarrow> Inl (bad_request msg_not_string))"

text \<open>The handler: validation, then resolution, generation and the reply.\<close>

definition chat_handler ::
  "(generation_call \<Rightarrow> js_string + js_string) \<Rightarrow> environment \<Rightarrow> store \<Rightarrow> chat_request
     \<Rightarrow> handler_result" where
  "chat_handler race env contexts req =
     (case validate req of
        Inl r \<Rightarrow> early_return contexts r
      | Inr (sanitizedMessage, items) \<Rightarrow>
          generate_and_reply race env contexts req sanitizedMessage items)"

subsection \<open>Accepted history entries\<close>

text \<open>
  Stated apart from the loop of the handler: an entry is accepted when it is an object
  with a truthy \<open>role\<close> and a \<open>content\<close> that is a non-empty string.
\<close>

fun nonempty_string :: "json option \<Rightarrow> bool" where
  "nonempty_string (Some (JStr s)) = (s \<noteq> [])"
| "nonempty_string v = False"

fun entry_accepted :: "json \<Rightarrow> bool" where
  "entry_accepted (JObj fs) =
     (truthy (map_of fs (lit ''role'')) \<and> nonempty_string (map_of fs (lit ''content'')))"
| "entry_accepted v = False"

text \<open>
  The history checks of a request (checks 4 to 6) pass: there is no history, or it is an
  array of at most 50 entries that the loop runs through to its end.
\<close>

definition history_checks_pass :: "json option \<Rightarrow> bool" where
  "history_checks_pass h =
     (case h of
        None \<Rightarrow> True
      | Some (JArr items) \<Rightarrow>
          length items \<le> MAX_HISTORY_LENGTH \<and> check_history_items items = Inr None
      | Some other \<Rightarrow> False)"


section \<open>The content generator (\<open>generateContent\<close>)\<close>

text \<open>
  An error thrown by the upstream client: it may carry a numeric \<open>status\<close>, and it has a
  \<open>message\<close>.
\<close>

record upstream_error =
  err_status :: "int option"
  err_message :: js_string

text \<open>
  One call of \<open>openai.chat.completions.create\<close> either completes, with the value of
  \<open>completion.choices[0]?.message?.content\<close> (\<open>None\<close> when it is \<open>undefined\<close> or
  \<open>null\<close>), or rejects with an error.
\<close>

datatype upstream_outcome =
    Completed "js_string option"
  | Rejected upstream_error

text \<open>
  The \<open>try\<close> block of one attempt: an absent or empty content is falsy and makes the
  block throw \<open>No response from OpenAI\<close> into the same \<open>catch\<close>.
\<close>

definition no_response :: upstream_error where
  "no_response = \<lparr>err_status = None, err_message = lit ''No response from OpenAI''\<rparr>"

fun try_create :: "upstream_outcome \<Rightarrow> upstream_error + js_string" where
  "try_create (Rejected e) = Inl e"
| "try_create (Completed None) = Inl no_response"
| "try_create (Completed (Some r)) = (if r = [] then Inl no_response else Inr r)"

text \<open>
  The two compound tests of the \<open>catch\<close> block: \<open>status >= 500\<close> on an error that
  carries a status, and a message that contains \<open>fetch\<close> or \<open>network\<close>.
\<close>

definition is_server_error :: "upstream_error \<Rightarrow> bool" where
  "is_server_error e = (case err_status e of None \<Rightarrow> False | Some s \<Rightarrow> s \<ge> 500)"

definition is_network_error :: "upstream_error \<Rightarrow> bool" where
  "is_network_error e \<longleftrightarrow>
     js_includes (err_message e) (lit ''fetch'') \<or> js_includes (err_message e) (lit ''network'')"

definition msg_auth_failed :: js_string where
  "msg_auth_failed = lit ''API authentication failed. Please check your OpenAI API key.''"

definition msg_invalid_request :: js_string where
  "msg_invalid_request =
     lit ''Invalid request to OpenAI API. Please try rephrasing your message.''"

definition msg_unavailable :: js_string where
  "msg_unavailable =
     lit ''OpenAI service is temporarily unavailable. Please try again in a moment.''"

definition msg_network :: js_string where
  "msg_network =
     lit ''Network connection error. Please check your internet connection and try again.''"

definition msg_high_demand :: js_string where
  "msg_high_demand =
     lit ''The service is experiencing high demand. Please wait a moment and try again.''"

text \<open>
  \<open>`Unable to generate content: ${lastError?.message || 'Unknown error'}. Please try again.`\<close>
\<close>

definition msg_unable :: "upstream_error option \<Rightarrow> js_string" where
  "msg_unable lastError =
     lit ''Unable to generate content: ''
     @ (case lastError of
          None \<Rightarrow> lit ''Unknown error''
        | Some e \<Rightarrow> if err_message e = [] then lit ''Unknown error'' else err_message e)
     @ lit ''. Please try again.''"

text \<open>The words by which the generic message is recognised.\<close>

definition generic_prefix :: js_string where
  "generic_prefix = lit ''Unable to generate content''"

text \<open>
  The result of a run: the content returned (\<open>Inr\<close>) or the message of the error thrown
  (\<open>Inl\<close>), the delays waited in milliseconds, in order, and the number of upstream
  calls made.
\<close>

record generation_result =
  outcome :: "js_string + js_string"
  waits :: "nat list"
  calls :: nat

definition waited :: "nat \<Rightarrow> generation_result \<Rightarrow> generation_result" where
  "waited delay r = r\<lparr>waits := delay # waits r\<rparr>"

definition called :: "generation_result \<Rightarrow> generation_result" where
  "called r = r\<lparr>calls := Suc (calls r)\<rparr>"

definition finished :: "js_string + js_string \<Rightarrow> generation_result" where
  "finished out = \<lparr>outcome = out, waits = [], calls = 0\<rparr>"

text \<open>
  The loop \<open>for (let attempt = 0; attempt < maxRetries; attempt++)\<close> together with the
  two \<open>throw\<close> statements that follow it.  The request sent upstream is built once before
  the loop and is the same at every attempt, so \<open>create attempt\<close> is the outcome of the
  call made at that attempt.  \<open>lastError\<close> and \<open>isRateLimited\<close> are the two variables
  of the source.
\<close>

function retry_loop ::
  "(nat \<Rightarrow> upstream_outcome) \<Rightarrow> int \<Rightarrow> nat \<Rightarrow> upstream_error option \<Rightarrow> bool
     \<Rightarrow> generation_result" where
  "retry_loop create maxRetries attempt lastError isRateLimited =
     (if int attempt < maxRetries then
        called
          (case try_create (create attempt) of
             Inr response \<Rightarrow> finished (Inr response)
           | Inl error \<Rightarrow>
               if err_status error = Some 429 then
                 waited (2 ^ attempt * 1000)
                   (retry_loop create maxRetries (Suc attempt) (Some error) True)
               else if err_status error = Some 401 then finished (Inl msg_auth_failed)
               else if err_status error = Some 400 then finished (Inl msg_invalid_request)
               else if is_server_error error then
                 (if int attempt < maxRetries - 1 then
                    waited 1000
                      (retry_loop create maxRetries (Suc attempt) (Some error) isRateLimited)
                  else finished (Inl msg_unavailable))
               else if is_network_error error then
                 (if int attempt < maxRetries - 1 then
                    waited 1000
                      (retry_loop create maxRetries (Suc attempt) (Some error) isRateLimited)
                  else finished (Inl msg_network))
               else if int attempt < maxRetries - 1 then
                 waited 1000
                   (retry_loop create maxRetries (Suc attempt) (Some error) isRateLimited)
               else retry_loop create maxRetries (Suc attempt) (Some error) isRateLimited)
      else if isRateLimited then finished (Inl msg_high_demand)
      else finished (Inl (msg_unable lastError)))"
  by pat_completeness auto
termination
  by (relation "measure (\<lambda>(create, maxRetries, attempt, lastError, isRateLimited).
                  nat (maxRetries - int attempt))") auto

definition generateContent :: "(nat \<Rightarrow> upstream_outcome) \<Rightarrow> int \<Rightarrow> generation_result" where
  "generateContent create maxRetries = retry_loop create maxRetries 0 None False"

section \<open>The client request layer (\<open>ChatClient.sendMessage\<close>)\<close>

text \<open>A value thrown in the browser: whether it is an \<open>Error\<close>, its name, its message.\<close>

record js_exception =
  is_Error :: bool
  exn_name :: js_string
  exn_message :: js_string

definition new_Error :: "js_string \<Rightarrow> js_exception" where
  "new_Error msg = \<lparr>is_Error = True, exn_name = lit ''Error'', exn_message = msg\<rparr>"

text \<open>
  The answer of the chat endpoint as \<open>fetch\<close> delivers it: the status, and the body
  \<open>response.json()\<close> resolves to (\<open>Inl\<close> when it rejects).  The body has the wire type
  \<open>ChatResponse\<close>, an object, of which the client reads the member \<open>error\<close> on a
  failure and which it returns whole on success.
\<close>

record chat_response_body =
  body_success :: bool
  body_response :: "js_string option"
  body_error :: "js_string option"
  body_sessionId :: "js_string option"

record fetch_response =
  resp_status :: nat
  resp_json :: "js_exception + chat_response_body"

text \<open>\<open>response.ok\<close>: the status is in the range 200 to 299.\<close>

definition response_ok :: "fetch_response \<Rightarrow> bool" where
  "response_ok r \<longleftrightarrow> 200 \<le> resp_status r \<and> resp_status r \<le> 299"

datatype fetch_outcome =
    Responded fetch_response
  | FetchRejected js_exception

definition client_maxRetries :: nat where
  "client_maxRetries = 2"

definition client_high_demand :: js_string where
  "client_high_demand =
     lit ''The service is experiencing high demand. Please wait a moment and try again.''"

definition client_timed_out_408 :: js_string where
  "client_timed_out_408 =
     lit ''Request timed out. The response took longer than expected. Please try again.''"

definition client_unavailable :: js_string where
  "client_unavailable =
     lit ''The service is temporarily unavailable. Please try again in a moment.''"

definition client_aborted :: js_string where
  "client_aborted =
     lit ''Request timed out after 30 seconds. Please try again with a simpler request.''"

definition client_network :: js_string where
  "client_network =
     lit ''Network error. Please check your internet connection and try again.''"

definition client_unexpected :: js_string where
  "client_unexpected = lit ''An unexpected error occurred. Please try again.''"

text \<open>
  \<open>errorData.error || `Server error (${response.status})`\<close>, where \<open>errorData\<close> is the
  body, or \<open>{}\<close> when \<open>response.json()\<close> rejects.
\<close>

definition errorMessage_of :: "fetch_response \<Rightarrow> js_string" where
  "errorMessage_of r =
     (let server_text = (case resp_json r of Inl e \<Rightarrow> None | Inr body \<Rightarrow> body_error body)
      in if string_truthy server_text then the server_text
         else lit ''Server error ('' @ number_toString (resp_status r) @ lit '')'')"

text \<open>What one invocation of \<open>sendMessage\<close> does after its \<open>fetch\<close> has settled.\<close>

datatype client_step =
    Return chat_response_body
  | Retry
  | Throw js_string

text \<open>
  The \<open>catch\<close> block.  It also receives the errors thrown inside the \<open>try\<close> block
  after a response that is not OK.
\<close>

definition catch_block :: "nat \<Rightarrow> js_exception \<Rightarrow> client_step" where
  "catch_block retryCount err =
     (if is_Error err then
        if exn_name err = lit ''AbortError'' then Throw client_aborted
        else if js_includes (exn_message err) (lit ''fetch'')
                \<or> js_includes (exn_message err) (lit ''Failed to fetch'') then
          (if retryCount < client_maxRetries then Retry else Throw client_network)
        else Throw (exn_message err)
      else Throw client_unexpected)"

definition try_block :: "nat \<Rightarrow> fetch_response \<Rightarrow> client_step" where
  "try_block retryCount r =
     (if \<not> response_ok r then
        (let errorMessage = errorMessage_of r in
         if resp_status r = 429 then catch_block retryCount (new_Error client_high_demand)
         else if resp_status r = 408 then catch_block retryCount (new_Error client_timed_out_408)
         else if resp_status r \<ge> 500 then
           (if retryCount < client_maxRetries then Retry
            else catch_block retryCount (new_Error client_unavailable))
         else catch_block retryCount (new_Error errorMessage))
      else (case resp_json r of
              Inl err \<Rightarrow> catch_block retryCount err
            | Inr data \<Rightarrow> Return data))"

fun client_step_of :: "nat \<Rightarrow> fetch_outcome \<Rightarrow> client_step" where
  "client_step_of retryCount (Responded r) = try_block retryCount r"
| "client_step_of retryCount (FetchRejected err) = catch_block retryCount err"

text \<open>
  The result of \<open>sendMessage\<close>: the body returned (\<open>Inr\<close>) or the message of the error
  it rejects with (\<open>Inl\<close>), the delays waited in milliseconds, in order, and the number
  of \<open>fetch\<close> calls.
\<close>

record client_result =
  settled :: "js_string + chat_response_body"
  delays :: "nat list"
  fetches :: nat

text \<open>
  \<open>sendMessage(request, retryCount)\<close>.  Every invocation makes one \<open>fetch\<close>;
  \<open>fetch_at retryCount\<close> is how the one made by the invocation with that retry count
  settles (a timeout of the 30 second abort timer is a rejection named \<open>AbortError\<close>).
  Both retries wait \<open>1000 * (retryCount + 1)\<close> milliseconds and return the promise of
  the recursive call, which is not awaited inside the \<open>try\<close>: its rejection is not
  caught again.
\<close>

function sendMessage :: "(nat \<Rightarrow> fetch_outcome) \<Rightarrow> nat \<Rightarrow> client_result" where
  "sendMessage fetch_at retryCount =
     (case client_step_of retryCount (fetch_at retryCount) of
        Return data \<Rightarrow> \<lparr>settled = Inr data, delays = [], fetches = 1\<rparr>
      | Throw msg \<Rightarrow> \<lparr>settled = Inl msg, delays = [], fetches = 1\<rparr>
      | Retry \<Rightarrow>
          (let r = sendMessage fetch_at (retryCount + 1)
           in r\<lparr>delays := 1000 * (retryCount + 1) # delays r, fetches := Suc (fetches r)\<rparr>))"
  by pat_completeness auto
termination
proof (relation "measure (\<lambda>(fetch_at, retryCount). client_maxRetries - retryCount)", goal_cases)
  case 1
  show ?case by simp
next
  case (2 fetch_at retryCount)
  have "retryCount < client_maxRetries"
  proof (cases "fetch_at retryCount")
    case (Responded r)
    with 2 show ?thesis
      by (auto simp: try_block_def catch_block_def Let_def split: if_splits sum.splits)
  next
    case (FetchRejected err)
    with 2 show ?thesis
      by (auto simp: catch_block_def split: if_splits)
  qed
  then show ?case by simp
qed

section \<open>Properties of \<open>sanitizeInput\<close>\<close>

declare tokens.simps [simp del]

lemma tokens_Nil [simp]: "tokens [] = []"
  by (subst tokens.simps) simp

lemma tokens_ws [simp]: "is_whitespace c \<Longrightarrow> tokens (c # cs) = tokens cs"
  by (subst tokens.simps, subst (2) tokens.simps) simp

lemma tokens_word [simp]:
  "\<not> is_whitespace c \<Longrightarrow>
   tokens (c # cs) = (c # takeWhile (\<lambda>x. \<not> is_whitespace x) cs)
                      # tokens (dropWhile (\<lambda>x. \<not> is_whitespace x) cs)"
  by (subst tokens.simps) simp

lemma tokens_dropWhile: "tokens (dropWhile is_whitespace s) = tokens s"
  by (induction s) simp_all

lemma tokens_all_ws: "\<forall>x\<in>set s. is_whitespace x \<Longrightarrow> tokens s = []"
  by (induction s) simp_all

lemma tokens_word_append:
  "\<forall>x\<in>set w. \<not> is_whitespace x \<Longrightarrow> w \<noteq> [] \<Longrightarrow> y = [] \<or> is_whitespace (hd y) \<Longrightarrow>
   tokens (w @ y) = w # tokens y"
proof (cases w)
  case Nil
  then show "w \<noteq> [] \<Longrightarrow> ?thesis" by simp
next
  case (Cons c cs)
  assume a: "\<forall>x\<in>set w. \<not> is_whitespace x" and y: "y = [] \<or> is_whitespace (hd y)"
  have tw: "takeWhile (\<lambda>x. \<not> is_whitespace x) (cs @ y) = cs"
    using a y Cons by (cases y) (simp_all add: takeWhile_append2 takeWhile_tail)
  have dw: "dropWhile (\<lambda>x. \<not> is_whitespace x) (cs @ y) = y"
    using a y Cons by (cases y) (simp_all add: dropWhile_append2)
  show ?thesis using a Cons tw dw by simp
qed

lemma collapse_word_append:
  "\<forall>x\<in>set w. \<not> is_whitespace x \<Longrightarrow> collapse_whitespace (w @ y) = w @ collapse_whitespace y"
  by (induction w) simp_all

lemma collapse_run_append:
  "r \<noteq> [] \<Longrightarrow> \<forall>x\<in>set r. is_whitespace x \<Longrightarrow> y = [] \<or> \<not> is_whitespace (hd y) \<Longrightarrow>
   collapse_whitespace (r @ y) = space # collapse_whitespace y"
proof (cases r)
  case Nil
  then show "r \<noteq> [] \<Longrightarrow> ?thesis" by simp
next
  case (Cons c cs)
  assume a: "\<forall>x\<in>set r. is_whitespace x" and y: "y = [] \<or> \<not> is_whitespace (hd y)"
  have "dropWhile is_whitespace (cs @ y) = y"
    using a y Cons by (cases y) (simp_all add: dropWhile_append2)
  then show ?thesis using a Cons by simp
qed

lemma trim_alt: "trim s = trim_end (dropWhile is_whitespace s)"
  by (simp add: trim_def trim_end_def)

lemma trim_end_append:
  "trim_end (a @ b) = (if \<forall>x\<in>set b. is_whitespace x then trim_end a else a @ trim_end b)"
  by (simp add: trim_end_def dropWhile_append)

lemma trim_end_Nil [simp]: "trim_end [] = []"
  by (simp add: trim_end_def)

lemma trim_end_all_ws: "\<forall>x\<in>set b. is_whitespace x \<Longrightarrow> trim_end b = []"
  using trim_end_append [of "[]" b] by simp

lemma trim_end_word: "\<forall>x\<in>set w. \<not> is_whitespace x \<Longrightarrow> trim_end w = w"
proof (induction w rule: rev_induct)
  case Nil
  show ?case by simp
next
  case (snoc x xs)
  then show ?case by (simp add: trim_end_def)
qed

lemma trim_end_hd: "\<not> is_whitespace c \<Longrightarrow> \<exists>t. trim_end (c # cs) = c # t"
  using trim_end_append [of "[c]" cs] trim_end_word [of "[c]"] by (auto split: if_splits)

lemma collapse_trim_tokens: "collapse_whitespace (trim s) = join_spaced (tokens s)"
proof (induction s rule: tokens.induct)
  case (1 s)
  show ?case
  proof (cases "dropWhile is_whitespace s")
    case Nil
    then have "tokens s = []"
      by (intro tokens_all_ws) (simp add: dropWhile_eq_Nil_conv)
    moreover have "trim s = []"
      unfolding trim_alt Nil by simp
    ultimately show ?thesis by simp
  next
    case (Cons c cs)
    define w where "w = c # takeWhile (\<lambda>x. \<not> is_whitespace x) cs"
    define rest where "rest = dropWhile (\<lambda>x. \<not> is_whitespace x) cs"
    have c: "\<not> is_whitespace c"
      using Cons hd_dropWhile [of is_whitespace s] by fastforce
    have w: "\<forall>x\<in>set w. \<not> is_whitespace x"
      using c by (auto simp: w_def dest: set_takeWhileD)
    have split: "dropWhile is_whitespace s = w @ rest"
      by (simp add: Cons w_def rest_def)
    have rest_hd: "rest = [] \<or> is_whitespace (hd rest)"
      using hd_dropWhile [of "\<lambda>x. \<not> is_whitespace x" cs] by (auto simp: rest_def)
    have toks: "tokens s = w # tokens rest"
      using tokens_dropWhile [of s] c by (simp add: Cons w_def rest_def)
    have IH: "collapse_whitespace (trim rest) = join_spaced (tokens rest)"
      using "1.IH" [OF Cons] by (simp add: rest_def)
    show ?thesis
    proof (cases "dropWhile is_whitespace rest")
      case Nil
      then have allws: "\<forall>x\<in>set rest. is_whitespace x"
        by (simp add: dropWhile_eq_Nil_conv)
      then have "trim s = w"
        using w by (simp add: trim_alt split trim_end_append trim_end_word)
      moreover have "tokens rest = []"
        using allws by (rule tokens_all_ws)
      ultimately show ?thesis
        using w collapse_word_append [of w "[]"] by (simp add: toks)
    next
      case (Cons d ds)
      note rest_split = this
      define run where "run = takeWhile is_whitespace rest"
      have d: "\<not> is_whitespace d"
        using rest_split hd_dropWhile [of is_whitespace rest] by fastforce
      have rest_eq: "rest = run @ d # ds"
        using takeWhile_dropWhile_id [of is_whitespace rest] by (simp add: run_def rest_split)
      have run_ws: "\<forall>x\<in>set run. is_whitespace x"
        by (auto simp: run_def dest: set_takeWhileD)
      have run_ne: "run \<noteq> []"
        using rest_hd rest_eq d by (cases run) auto
      have not_all: "\<not> (\<forall>x\<in>set rest. is_whitespace x)"
        using rest_eq d by auto
      have not_all': "\<not> (\<forall>x\<in>set (d # ds). is_whitespace x)"
        using d by auto
      obtain t where t: "trim_end (d # ds) = d # t"
        using trim_end_hd [OF d] by blast
      have trim_rest: "trim rest = d # t"
        by (simp add: trim_alt rest_split t)
      have "trim_end (w @ rest) = w @ trim_end rest"
        using not_all by (subst trim_end_append) auto
      moreover have "trim_end (run @ d # ds) = run @ trim_end (d # ds)"
        using d by (subst trim_end_append) auto
      ultimately have "trim s = w @ run @ d # t"
        using rest_eq by (simp add: trim_alt split t)
      then have "collapse_whitespace (trim s) = w @ space # collapse_whitespace (d # t)"
        using w run_ne run_ws d
        by (simp add: collapse_word_append collapse_run_append)
      moreover have "tokens rest = tokens (d # ds)"
        using tokens_dropWhile [of rest] by (simp add: rest_split)
      then have "tokens rest \<noteq> []"
        using d by simp
      then obtain v vs where "tokens rest = v # vs"
        by (cases "tokens rest") auto
      ultimately show ?thesis
        using IH by (simp add: toks trim_rest)
    qed
  qed
qed

lemma tokens_are_words:
  "w \<in> set (tokens s) \<Longrightarrow> w \<noteq> [] \<and> (\<forall>x\<in>set w. \<not> is_whitespace x) \<and> set w \<subseteq> set s"
proof (induction s arbitrary: w rule: length_induct)
  case (1 s)
  show ?case
  proof (cases s)
    case Nil
    with 1 show ?thesis by simp
  next
    case (Cons c cs)
    show ?thesis
    proof (cases "is_whitespace c")
      case True
      then have "w \<in> set (tokens cs)" using 1 Cons by simp
      then show ?thesis using 1 Cons by fastforce
    next
      case False
      let ?rest = "dropWhile (\<lambda>x. \<not> is_whitespace x) cs"
      have len: "length ?rest < length s"
        using length_dropWhile_le [of "\<lambda>x. \<not> is_whitespace x" cs] Cons by simp
      from 1 Cons False
      consider "w = c # takeWhile (\<lambda>x. \<not> is_whitespace x) cs" | "w \<in> set (tokens ?rest)"
        by auto
      then show ?thesis
      proof cases
        case 1
        then show ?thesis using False Cons by (auto dest: set_takeWhileD)
      next
        case 2
        then have "w \<noteq> [] \<and> (\<forall>x\<in>set w. \<not> is_whitespace x) \<and> set w \<subseteq> set ?rest"
          using "1.IH" len by blast
        then show ?thesis using Cons by (auto dest: set_dropWhileD)
      qed
    qed
  qed
qed

lemma tokens_join_spaced:
  "\<forall>w\<in>set ws. w \<noteq> [] \<and> (\<forall>x\<in>set w. \<not> is_whitespace x) \<Longrightarrow> tokens (join_spaced ws) = ws"
proof (induction ws rule: join_spaced.induct)
  case 1
  show ?case by simp
next
  case (2 w)
  then show ?case using tokens_word_append [of w "[]"] by simp
next
  case (3 w v ws)
  have sp: "is_whitespace space" by (simp add: is_whitespace_def space_def)
  have "tokens (w @ space # join_spaced (v # ws)) = w # tokens (space # join_spaced (v # ws))"
    using 3 sp by (intro tokens_word_append) simp_all
  then show ?case using 3 sp by simp
qed

lemma set_join_spaced: "set (join_spaced ws) \<subseteq> \<Union> (set ` set ws) \<union> {space}"
  by (induction ws rule: join_spaced.induct) auto

lemma replace_nulls_no_null: "0 \<notin> set (replace_nulls s)"
  by (auto simp: replace_nulls_def space_def)

lemma replace_nulls_id: "0 \<notin> set s \<Longrightarrow> replace_nulls s = s"
  by (auto simp: replace_nulls_def intro: map_idI)

lemma sanitizeInput_tokens: "sanitizeInput m = join_spaced (tokens (replace_nulls m))"
  by (simp add: sanitizeInput_def collapse_trim_tokens)

lemma sanitizeInput_no_null: "0 \<notin> set (sanitizeInput m)"
proof
  assume "0 \<in> set (sanitizeInput m)"
  then have "0 \<in> \<Union> (set ` set (tokens (replace_nulls m))) \<union> {space}"
    using set_join_spaced [of "tokens (replace_nulls m)"] by (auto simp: sanitizeInput_tokens)
  then obtain w where "w \<in> set (tokens (replace_nulls m))" "0 \<in> set w"
    by (auto simp: space_def)
  then have "0 \<in> set (replace_nulls m)"
    using tokens_are_words by blast
  then show False using replace_nulls_no_null by blast
qed

lemma sanitizeInput_idem: "sanitizeInput (sanitizeInput m) = sanitizeInput m"
proof -
  let ?ws = "tokens (replace_nulls m)"
  have words: "\<forall>w\<in>set ?ws. w \<noteq> [] \<and> (\<forall>x\<in>set w. \<not> is_whitespace x)"
    using tokens_are_words by blast
  have "replace_nulls (sanitizeInput m) = sanitizeInput m"
    by (rule replace_nulls_id) (rule sanitizeInput_no_null)
  then have "sanitizeInput (sanitizeInput m) = join_spaced (tokens (sanitizeInput m))"
    by (simp add: sanitizeInput_tokens [of "sanitizeInput m"])
  also have "tokens (sanitizeInput m) = ?ws"
    using tokens_join_spaced [OF words] by (simp add: sanitizeInput_tokens)
  finally show ?thesis by (simp add: sanitizeInput_tokens)
qed

declare spec_words.simps [simp del]

lemma spec_words_Nil [simp]: "spec_words [] = []"
  by (subst spec_words.simps) simp

lemma spec_words_separator [simp]: "is_separator c \<Longrightarrow> spec_words (c # cs) = spec_words cs"
  by (subst spec_words.simps, subst (2) spec_words.simps) simp

lemma spec_words_word [simp]:
  "\<not> is_separator c \<Longrightarrow>
   spec_words (c # cs) = (c # takeWhile (\<lambda>x. \<not> is_separator x) cs)
                          # spec_words (dropWhile (\<lambda>x. \<not> is_separator x) cs)"
  by (subst spec_words.simps) simp

lemma whitespace_after_replace:
  "is_whitespace (if c = 0 then space else c) \<longleftrightarrow> is_separator c"
  by (simp add: is_separator_def is_whitespace_def space_def)

lemma tokens_replace_nulls: "tokens (replace_nulls s) = spec_words s"
proof (induction s rule: length_induct)
  case (1 s)
  let ?f = "\<lambda>c::js_char. if c = 0 then space else c"
  show ?case
  proof (cases s)
    case Nil
    then show ?thesis by (simp add: replace_nulls_def)
  next
    case (Cons c cs)
    have rn: "replace_nulls (c # cs) = ?f c # replace_nulls cs"
      by (simp add: replace_nulls_def)
    show ?thesis
    proof (cases "is_separator c")
      case True
      then have "is_whitespace (?f c)" by (simp only: whitespace_after_replace)
      then have "tokens (replace_nulls (c # cs)) = tokens (replace_nulls cs)"
        unfolding rn by (rule tokens_ws)
      moreover have "tokens (replace_nulls cs) = spec_words cs"
        using 1 Cons by simp
      ultimately show ?thesis using True Cons by simp
    next
      case False
      then have c: "?f c = c" "\<not> is_whitespace c"
        by (auto simp: is_separator_def)
      have comp: "(\<lambda>x. \<not> is_whitespace x) \<circ> ?f = (\<lambda>x. \<not> is_separator x)"
        using whitespace_after_replace by (auto simp: fun_eq_iff)
      have tw: "takeWhile (\<lambda>x. \<not> is_whitespace x) (replace_nulls cs)
                  = takeWhile (\<lambda>x. \<not> is_separator x) cs"
      proof -
        have "takeWhile (\<lambda>x. \<not> is_whitespace x) (map ?f cs)
                = map ?f (takeWhile (\<lambda>x. \<not> is_separator x) cs)"
          by (simp only: takeWhile_map comp)
        also have "\<dots> = takeWhile (\<lambda>x. \<not> is_separator x) cs"
          by (rule map_idI) (auto simp: is_separator_def dest: set_takeWhileD)
        finally show ?thesis by (simp only: replace_nulls_def)
      qed
      have dw: "dropWhile (\<lambda>x. \<not> is_whitespace x) (replace_nulls cs)
                  = replace_nulls (dropWhile (\<lambda>x. \<not> is_separator x) cs)"
        unfolding replace_nulls_def by (simp only: dropWhile_map comp)
      have "length (dropWhile (\<lambda>x. \<not> is_separator x) cs) < length s"
        using length_dropWhile_le [of "\<lambda>x. \<not> is_separator x" cs] Cons by simp
      then have IH: "tokens (replace_nulls (dropWhile (\<lambda>x. \<not> is_separator x) cs))
                       = spec_words (dropWhile (\<lambda>x. \<not> is_separator x) cs)"
        using 1 by blast
      have "tokens (replace_nulls (c # cs))
              = (c # takeWhile (\<lambda>x. \<not> is_whitespace x) (replace_nulls cs))
                # tokens (dropWhile (\<lambda>x. \<not> is_whitespace x) (replace_nulls cs))"
        unfolding rn c(1) using c(2) by (rule tokens_word)
      then show ?thesis using False Cons by (simp add: tw dw IH)
    qed
  qed
qed

text \<open>
  Claim C4.  For every input string, \<open>sanitizeInput\<close> returns exactly the
  normalisation of the specification: every null character counts as a space, no white
  space stands at the ends, and every run of white space is one space, that is, the
  words of the input joined by single spaces.  Sanitising is idempotent: sanitising a
  sanitised message changes nothing.
\<close>

theorem C4_sanitizeInput_normal_form_idempotent:
  "sanitizeInput m = normalize_spec m
   \<and> sanitizeInput (sanitizeInput m) = sanitizeInput m"
proof
  show "sanitizeInput m = normalize_spec m"
    by (simp add: normalize_spec_def sanitizeInput_tokens tokens_replace_nulls)
  show "sanitizeInput (sanitizeInput m) = sanitizeInput m"
    by (rule sanitizeInput_idem)
qed

section \<open>Properties of the content generator\<close>

declare retry_loop.simps [simp del]

lemma waited_simps [simp]:
  "outcome (waited d r) = outcome r" "waits (waited d r) = d # waits r" "calls (waited d r) = calls r"
  by (simp_all add: waited_def)

lemma called_simps [simp]:
  "outcome (called r) = outcome r" "waits (called r) = waits r" "calls (called r) = Suc (calls r)"
  by (simp_all add: called_def)

lemma finished_simps [simp]:
  "outcome (finished out) = out" "waits (finished out) = []" "calls (finished out) = 0"
  by (simp_all add: finished_def)

lemma retry_loop_end:
  "\<not> int attempt < maxRetries \<Longrightarrow>
   retry_loop create maxRetries attempt lastError isRateLimited =
     (if isRateLimited then finished (Inl msg_high_demand)
      else finished (Inl (msg_unable lastError)))"
  by (subst retry_loop.simps) simp

lemma retry_loop_step:
  "int attempt < maxRetries \<Longrightarrow>
   retry_loop create maxRetries attempt lastError isRateLimited =
      called
          (case try_create (create attempt) of
             Inr response \<Rightarrow> finished (Inr response)
           | Inl error \<Rightarrow>
               if err_status error = Some 429 then
                 waited (2 ^ attempt * 1000)
                   (retry_loop create maxRetries (Suc attempt) (Some error) True)
               else if err_status error = Some 401 then finished (Inl msg_auth_failed)
               else if err_status error = Some 400 then finished (Inl msg_invalid_request)
               else if is_server_error error then
                 (if int attempt < maxRetries - 1 then
                    waited 1000
                      (retry_loop create maxRetries (Suc attempt) (Some error) isRateLimited)
                  else finished (Inl msg_unavailable))
               else if is_network_error error then
                 (if int attempt < maxRetries - 1 then
                    waited 1000
                      (retry_loop create maxRetries (Suc attempt) (Some error) isRateLimited)
                  else finished (Inl msg_network))
               else if int attempt < maxRetries - 1 then
                 waited 1000
                   (retry_loop create maxRetries (Suc attempt) (Some error) isRateLimited)
               else retry_loop create maxRetries (Suc attempt) (Some error) isRateLimited)"
  by (subst retry_loop.simps) simp

lemma retry_loop_exhausted:
  assumes start: "attempt < n" and n: "int n = maxRetries"
      and fails: "\<forall>k<n. try_create (create k) = Inl (err k)"
      and not_immediate:
        "\<forall>k<n. err_status (err k) \<noteq> Some 401 \<and> err_status (err k) \<noteq> Some 400"
  shows "outcome (retry_loop create maxRetries attempt lastError isRateLimited) =
           Inl (if err_status (err (n - 1)) = Some 429 then msg_high_demand
                else if is_server_error (err (n - 1)) then msg_unavailable
                else if is_network_error (err (n - 1)) then msg_network
                else if isRateLimited
                        \<or> (\<exists>k. attempt \<le> k \<and> k < n \<and> err_status (err k) = Some 429)
                  then msg_high_demand
                else msg_unable (Some (err (n - 1))))
       \<and> calls (retry_loop create maxRetries attempt lastError isRateLimited) = n - attempt"
proof -
  define final :: "bool \<Rightarrow> js_string + js_string" where "final c =
     Inl (if err_status (err (n - 1)) = Some 429 then msg_high_demand
          else if is_server_error (err (n - 1)) then msg_unavailable
          else if is_network_error (err (n - 1)) then msg_network
          else if c then msg_high_demand
          else msg_unable (Some (err (n - 1))))" for c :: bool
  define limited where
    "limited a \<longleftrightarrow> (\<exists>k. a \<le> k \<and> k < n \<and> err_status (err k) = Some 429)" for a
  have main: "outcome (retry_loop create maxRetries a le rl) = final (rl \<or> limited a)
              \<and> calls (retry_loop create maxRetries a le rl) = n - a"
    if "a < n" for a le rl
    using that
  proof (induction "n - Suc a" arbitrary: a le rl)
    case 0
    then have last: "Suc a = n" by simp
    then have last_err: "err (n - 1) = err a" by auto
    have a: "int a < maxRetries" "\<not> int a < maxRetries - 1"
      using last n by auto
    have f: "try_create (create a) = Inl (err a)" using fails 0 by simp
    have ni: "err_status (err a) \<noteq> Some 401" "err_status (err a) \<noteq> Some 400"
      using not_immediate 0 by simp_all
    have "\<not> int (Suc a) < maxRetries" using last n by auto
    then have fin: "retry_loop create maxRetries (Suc a) le' rl' =
       (if rl' then finished (Inl msg_high_demand) else finished (Inl (msg_unable le')))"
      for le' rl'
      by (rule retry_loop_end)
    have only: "limited a \<longleftrightarrow> err_status (err a) = Some 429"
      unfolding limited_def
    proof
      assume "\<exists>k. a \<le> k \<and> k < n \<and> err_status (err k) = Some 429"
      then obtain k where k: "a \<le> k" "k < n" "err_status (err k) = Some 429"
        by blast
      then have "k = a" using last by simp
      with k show "err_status (err a) = Some 429" by simp
    next
      assume "err_status (err a) = Some 429"
      then show "\<exists>k. a \<le> k \<and> k < n \<and> err_status (err k) = Some 429"
        using last by (intro exI [of _ a]) simp
    qed
    have calls_eq: "n - a = Suc 0" using last by simp
    show ?case
      unfolding retry_loop_step [OF a(1)] f only calls_eq final_def last_err
      using a(2) ni by (simp add: fin)
  next
    case (Suc d)
    then have lt: "Suc a < n" by simp
    have a: "int a < maxRetries" "int a < maxRetries - 1"
      using lt n by auto
    have f: "try_create (create a) = Inl (err a)" using fails lt by simp
    have ni: "err_status (err a) \<noteq> Some 401" "err_status (err a) \<noteq> Some 400"
      using not_immediate lt by simp_all
    have IH: "outcome (retry_loop create maxRetries (Suc a) le' rl') = final (rl' \<or> limited (Suc a))
              \<and> calls (retry_loop create maxRetries (Suc a) le' rl') = n - Suc a" for le' rl'
      using Suc.hyps(2) lt by (intro Suc.hyps(1)) auto
    have ex: "limited a \<longleftrightarrow> err_status (err a) = Some 429 \<or> limited (Suc a)"
      unfolding limited_def
      using lt by (metis Suc_leI Suc_lessD le_eq_less_or_eq Suc_leD order_refl)
    have calls_eq: "n - a = Suc (n - Suc a)" using lt by simp
    show ?case
      unfolding retry_loop_step [OF a(1)] f ex calls_eq
      using a(2) ni by (simp add: IH)
  qed
  show ?thesis
    using main [OF start, of lastError isRateLimited] by (simp add: final_def limited_def)
qed

lemma not_generic:
  "\<not> starts_with msg_high_demand generic_prefix"
  "\<not> starts_with msg_auth_failed generic_prefix"
  "\<not> starts_with msg_invalid_request generic_prefix"
  "\<not> starts_with msg_unavailable generic_prefix"
  "\<not> starts_with msg_network generic_prefix"
  by (simp_all add: generic_prefix_def msg_high_demand_def msg_auth_failed_def
        msg_invalid_request_def msg_unavailable_def msg_network_def lit_def)

lemma retry_loop_generic_only:
  assumes "outcome (retry_loop create maxRetries attempt lastError isRateLimited) = Inl m"
      and "starts_with m generic_prefix"
  shows "\<not> isRateLimited
       \<and> (\<forall>k e. attempt \<le> k \<and> int k < maxRetries \<and> try_create (create k) = Inl e
                  \<longrightarrow> err_status e \<noteq> Some 429)"
  using assms
proof (induction "nat (maxRetries - int attempt)" arbitrary: attempt lastError isRateLimited)
  case 0
  then have "\<not> int attempt < maxRetries" by simp
  then show ?case using "0.prems" not_generic(1)
    by (auto simp: retry_loop_end split: if_splits)
next
  case (Suc d)
  then have a: "int attempt < maxRetries" by simp
  have d: "d = nat (maxRetries - int (Suc attempt))" using Suc.hyps(2) by simp
  note IH = Suc.hyps(1) [OF d]
  have unfold: "retry_loop create maxRetries attempt lastError isRateLimited =
      called
          (case try_create (create attempt) of
             Inr response \<Rightarrow> finished (Inr response)
           | Inl error \<Rightarrow>
               if err_status error = Some 429 then
                 waited (2 ^ attempt * 1000)
                   (retry_loop create maxRetries (Suc attempt) (Some error) True)
               else if err_status error = Some 401 then finished (Inl msg_auth_failed)
               else if err_status error = Some 400 then finished (Inl msg_invalid_request)
               else if is_server_error error then
                 (if int attempt < maxRetries - 1 then
                    waited 1000
                      (retry_loop create maxRetries (Suc attempt) (Some error) isRateLimited)
                  else finished (Inl msg_unavailable))
               else if is_network_error error then
                 (if int attempt < maxRetries - 1 then
                    waited 1000
                      (retry_loop create maxRetries (Suc attempt) (Some error) isRateLimited)
                  else finished (Inl msg_network))
               else if int attempt < maxRetries - 1 then
                 waited 1000
                   (retry_loop create maxRetries (Suc attempt) (Some error) isRateLimited)
               else retry_loop create maxRetries (Suc attempt) (Some error) isRateLimited)"
    using a by (subst retry_loop.simps) simp
  show ?case
  proof (cases "try_create (create attempt)")
    case (Inr r)
    then show ?thesis using Suc.prems unfold by simp
  next
    case (Inl e)
    have rec: "outcome (retry_loop create maxRetries (Suc attempt) (Some e) rl) = Inl m \<Longrightarrow>
               \<not> rl \<and> (\<forall>k e. Suc attempt \<le> k \<and> int k < maxRetries \<and> try_create (create k) = Inl e
                  \<longrightarrow> err_status e \<noteq> Some 429)" for rl
      using IH Suc.prems(2) by blast
    have step: "\<not> rl \<and> (\<forall>k e. Suc attempt \<le> k \<and> int k < maxRetries \<and> try_create (create k) = Inl e
                  \<longrightarrow> err_status e \<noteq> Some 429) \<Longrightarrow> err_status e \<noteq> Some 429 \<Longrightarrow>
          \<not> rl \<and> (\<forall>k e. attempt \<le> k \<and> int k < maxRetries \<and> try_create (create k) = Inl e
                  \<longrightarrow> err_status e \<noteq> Some 429)" for rl
      using Inl by (metis Suc_leI le_neq_implies_less sum.inject(1))
    show ?thesis
    proof (cases "err_status e = Some 429")
      case True
      then have "outcome (retry_loop create maxRetries (Suc attempt) (Some e) True) = Inl m"
        using Suc.prems(1) unfold Inl by simp
      then show ?thesis using rec [of True] by simp
    next
      case False
      have "outcome (retry_loop create maxRetries (Suc attempt) (Some e) isRateLimited) = Inl m"
        using Suc.prems unfold Inl False not_generic
        by (auto split: if_splits)
      then show ?thesis using rec [of isRateLimited] step False by blast
    qed
  qed
qed

lemma retry_loop_rate_limited:
  assumes "int attempt < maxRetries" "create attempt = Rejected e" "err_status e = Some 429"
  shows "retry_loop create maxRetries attempt lastError isRateLimited =
           called (waited (2 ^ attempt * 1000)
                     (retry_loop create maxRetries (Suc attempt) (Some e) True))"
  using assms by (subst retry_loop.simps) simp

lemma retry_loop_success:
  assumes "int attempt < maxRetries" "create attempt = Completed (Some content)" "content \<noteq> []"
  shows "retry_loop create maxRetries attempt lastError isRateLimited = called (finished (Inr content))"
  using assms by (subst retry_loop.simps) simp

lemma retry_loop_rate_limited_then_success:
  assumes "attempt \<le> n" "int n < maxRetries"
      and "\<forall>k. attempt \<le> k \<and> k < n \<longrightarrow> (\<exists>e. create k = Rejected e \<and> err_status e = Some 429)"
      and "create n = Completed (Some content)" "content \<noteq> []"
  shows "outcome (retry_loop create maxRetries attempt lastError isRateLimited) = Inr content
       \<and> waits (retry_loop create maxRetries attempt lastError isRateLimited)
           = map (\<lambda>k. 2 ^ k * 1000) [attempt..<n]
       \<and> calls (retry_loop create maxRetries attempt lastError isRateLimited) = Suc n - attempt"
  using assms
proof (induction "n - attempt" arbitrary: attempt lastError isRateLimited)
  case 0
  then have "attempt = n" by simp
  with 0 show ?case by (simp add: retry_loop_success)
next
  case (Suc d)
  then have lt: "attempt < n" by simp
  then obtain e where e: "create attempt = Rejected e" "err_status e = Some 429"
    using Suc.prems(3) by auto
  have a: "int attempt < maxRetries" using lt Suc.prems(2) by simp
  have step: "retry_loop create maxRetries attempt lastError isRateLimited =
           called (waited (2 ^ attempt * 1000)
                     (retry_loop create maxRetries (Suc attempt) (Some e) True))"
    using a e by (simp add: retry_loop_rate_limited)
  have IH: "outcome (retry_loop create maxRetries (Suc attempt) (Some e) True) = Inr content
       \<and> waits (retry_loop create maxRetries (Suc attempt) (Some e) True)
           = map (\<lambda>k. 2 ^ k * 1000) [Suc attempt..<n]
       \<and> calls (retry_loop create maxRetries (Suc attempt) (Some e) True) = Suc n - Suc attempt"
    using Suc.hyps(2) lt Suc.prems by (intro Suc.hyps(1)) auto
  show ?case using IH lt by (simp add: step upt_conv_Cons)
qed

lemma sum_list_backoff: "sum_list (map (\<lambda>k. 2 ^ k * 1000) [0..<n]) = (2 ^ n - 1) * (1000::nat)"
proof (induction n)
  case 0
  show ?case by simp
next
  case (Suc n)
  have "(1::nat) \<le> 2 ^ n" by simp
  then show ?case using Suc by (simp add: algebra_simps)
qed

text \<open>
  Claim C1.  When the first \<open>n\<close> upstream calls fail with status 429, with \<open>n\<close>
  strictly below \<open>maxRetries\<close>, and the next call completes with a content (a
  completion without content is an error to the generator), \<open>generateContent\<close>
  returns that content after \<open>n + 1\<close> calls.  After the failed attempt \<open>k\<close> it waits
  \<open>2 ^ k\<close> seconds (1000, 2000, 4000, ... milliseconds), so the total wait is the sum
  of \<open>2 ^ k\<close> seconds over the failed attempts.
\<close>

theorem C1_rate_limited_then_success:
  assumes "int n < maxRetries"
      and "\<forall>k<n. \<exists>e. create k = Rejected e \<and> err_status e = Some 429"
      and "create n = Completed (Some content)" and "content \<noteq> []"
  shows "outcome (generateContent create maxRetries) = Inr content
       \<and> waits (generateContent create maxRetries) = map (\<lambda>k. 2 ^ k * 1000) [0..<n]
       \<and> sum_list (waits (generateContent create maxRetries)) = (\<Sum>k<n. 2 ^ k * 1000)
       \<and> calls (generateContent create maxRetries) = Suc n"
proof -
  have r: "outcome (retry_loop create maxRetries 0 None False) = Inr content
       \<and> waits (retry_loop create maxRetries 0 None False) = map (\<lambda>k. 2 ^ k * 1000) [0..<n]
       \<and> calls (retry_loop create maxRetries 0 None False) = Suc n - 0"
    using assms by (intro retry_loop_rate_limited_then_success) auto
  have "sum_list (map (\<lambda>k. 2 ^ k * 1000) [0..<n]) = (\<Sum>k<n. 2 ^ k * (1000::nat))"
    by (simp add: sum_list_sum_nth atLeast0LessThan)
  with r show ?thesis by (simp add: generateContent_def)
qed

theorem C1_rate_limited_then_success_witness:
  "generateContent
     (\<lambda>k. if k < 2 then Rejected \<lparr>err_status = Some 429, err_message = lit ''Rate limit exceeded''\<rparr>
          else Completed (Some (lit ''Test marketing response''))) 3
   = \<lparr>outcome = Inr (lit ''Test marketing response''), waits = [1000, 2000], calls = 3\<rparr>"
proof -
  let ?create = "\<lambda>k::nat. if k < 2 then Rejected \<lparr>err_status = Some 429, err_message = lit ''Rate limit exceeded''\<rparr>
          else Completed (Some (lit ''Test marketing response''))"
  have "outcome (generateContent ?create 3) = Inr (lit ''Test marketing response'')
       \<and> waits (generateContent ?create 3) = map (\<lambda>k. 2 ^ k * 1000) [0..<2]
       \<and> sum_list (waits (generateContent ?create 3)) = (\<Sum>k<2. 2 ^ k * 1000)
       \<and> calls (generateContent ?create 3) = Suc 2"
    by (rule C1_rate_limited_then_success) (simp_all add: lit_def)
  then show ?thesis
    by (cases "generateContent ?create 3") (simp add: upt_rec numeral_2_eq_2)
qed


text \<open>
  Claim C2.  When the first upstream call is rejected with status 401,
  \<open>generateContent\<close> fails at once with the authentication message: one upstream
  call, no retry and no delay.
\<close>

theorem C2_unauthorized_fails_immediately:
  assumes "0 < maxRetries" and "create 0 = Rejected e" and "err_status e = Some 401"
  shows "generateContent create maxRetries = \<lparr>outcome = Inl msg_auth_failed, waits = [], calls = 1\<rparr>"
  using assms unfolding generateContent_def
  by (subst retry_loop.simps) (simp add: called_def finished_def)

theorem C2_unauthorized_fails_immediately_witness:
  "generateContent (\<lambda>k. Rejected \<lparr>err_status = Some 401, err_message = lit ''Unauthorized''\<rparr>) 3
   = \<lparr>outcome = Inl msg_auth_failed, waits = [], calls = 1\<rparr>"
  using C2_unauthorized_fails_immediately [of 3 "\<lambda>k. Rejected \<lparr>err_status = Some 401, err_message = lit ''Unauthorized''\<rparr>"
                   "\<lparr>err_status = Some 401, err_message = lit ''Unauthorized''\<rparr>"]
  by simp


text \<open>
  Claim C10, amended.  Let every one of the \<open>maxRetries\<close> attempts fail, none with
  status 401 or 400 (which fail at once), so that the budget is exhausted.  The error
  raised is decided by the last attempt first: after a last 429 it is the high demand
  message; after a last status of 500 or more it is the unavailable message; after a
  last network error it is the network message, also when earlier attempts were rate
  limited.  Only when the last failure is of none of these kinds does the flag decide:
  the high demand message if any attempt failed with 429, and otherwise the generic
  \<open>Unable to generate content\<close> message with the text of the last error.  In every
  run, the generic message is raised only if no attempt was rate limited.
\<close>

theorem C10_exhausted_budget_message:
  "(0 < maxRetries
      \<and> (\<forall>k. int k < maxRetries \<longrightarrow>
             try_create (create k) = Inl (err k)
             \<and> err_status (err k) \<noteq> Some 401 \<and> err_status (err k) \<noteq> Some 400)
    \<longrightarrow> outcome (generateContent create maxRetries) =
          Inl (if err_status (err (nat maxRetries - 1)) = Some 429 then msg_high_demand
               else if is_server_error (err (nat maxRetries - 1)) then msg_unavailable
               else if is_network_error (err (nat maxRetries - 1)) then msg_network
               else if \<exists>k. int k < maxRetries \<and> err_status (err k) = Some 429
                 then msg_high_demand
               else msg_unable (Some (err (nat maxRetries - 1))))
        \<and> calls (generateContent create maxRetries) = nat maxRetries)
   \<and> (\<forall>m. outcome (generateContent create maxRetries) = Inl m \<and> starts_with m generic_prefix
          \<longrightarrow> (\<forall>k e. int k < maxRetries \<and> try_create (create k) = Inl e
                       \<longrightarrow> err_status e \<noteq> Some 429))"
proof (intro conjI impI allI)
  assume h: "0 < maxRetries
      \<and> (\<forall>k. int k < maxRetries \<longrightarrow>
             try_create (create k) = Inl (err k)
             \<and> err_status (err k) \<noteq> Some 401 \<and> err_status (err k) \<noteq> Some 400)"
  define n where "n = nat maxRetries"
  have n: "0 < n" "int n = maxRetries" using h by (simp_all add: n_def)
  have bound: "k < n \<longleftrightarrow> int k < maxRetries" for k using n by auto
  have r: "outcome (retry_loop create maxRetries 0 None False) =
           Inl (if err_status (err (n - 1)) = Some 429 then msg_high_demand
                else if is_server_error (err (n - 1)) then msg_unavailable
                else if is_network_error (err (n - 1)) then msg_network
                else if False \<or> (\<exists>k. 0 \<le> k \<and> k < n \<and> err_status (err k) = Some 429)
                  then msg_high_demand
                else msg_unable (Some (err (n - 1))))
       \<and> calls (retry_loop create maxRetries 0 None False) = n - 0"
    using n h by (intro retry_loop_exhausted) (auto simp: bound)
  have ex: "(\<exists>k. (0::nat) \<le> k \<and> k < n \<and> err_status (err k) = Some 429)
            \<longleftrightarrow> (\<exists>k. int k < maxRetries \<and> err_status (err k) = Some 429)"
    by (simp add: bound)
  have n1: "n = nat maxRetries" by (simp add: n_def)
  from r have "outcome (retry_loop create maxRetries 0 None False) =
          Inl (if err_status (err (nat maxRetries - 1)) = Some 429 then msg_high_demand
               else if is_server_error (err (nat maxRetries - 1)) then msg_unavailable
               else if is_network_error (err (nat maxRetries - 1)) then msg_network
               else if \<exists>k. int k < maxRetries \<and> err_status (err k) = Some 429
                 then msg_high_demand
               else msg_unable (Some (err (nat maxRetries - 1))))"
    unfolding ex by (simp only: n1 simp_thms)
  then show "outcome (generateContent create maxRetries) =
          Inl (if err_status (err (nat maxRetries - 1)) = Some 429 then msg_high_demand
               else if is_server_error (err (nat maxRetries - 1)) then msg_unavailable
               else if is_network_error (err (nat maxRetries - 1)) then msg_network
               else if \<exists>k. int k < maxRetries \<and> err_status (err k) = Some 429
                 then msg_high_demand
               else msg_unable (Some (err (nat maxRetries - 1))))"
    by (simp only: generateContent_def)
  from r show "calls (generateContent create maxRetries) = nat maxRetries"
    by (simp add: generateContent_def n_def)
next
  fix m k e
  assume "outcome (generateContent create maxRetries) = Inl m \<and> starts_with m generic_prefix"
     and "int k < maxRetries \<and> try_create (create k) = Inl e"
  then show "err_status e \<noteq> Some 429"
    using retry_loop_generic_only [of create maxRetries 0 None False m]
    by (auto simp: generateContent_def)
qed


theorem C10_exhausted_budget_message_witness:
  "outcome (generateContent
     (\<lambda>k. if k < 2
          then Rejected \<lparr>err_status = Some 429, err_message = lit ''Rate limit exceeded''\<rparr>
          else Rejected \<lparr>err_status = None, err_message = lit ''boom''\<rparr>) 3)
     = Inl msg_high_demand
   \<and> outcome (generateContent
        (\<lambda>k. Rejected \<lparr>err_status = None, err_message = lit ''boom''\<rparr>) 3)
       = Inl (lit ''Unable to generate content: boom. Please try again.'')"
proof
  let ?limited = "\<lparr>err_status = Some 429, err_message = lit ''Rate limit exceeded''\<rparr>"
  let ?boom = "\<lparr>err_status = None, err_message = lit ''boom''\<rparr>"
  have boom: "\<not> is_server_error ?boom" "\<not> is_network_error ?boom"
    by (simp_all add: is_server_error_def is_network_error_def lit_def)
  let ?err = "\<lambda>k::nat. if k < 2 then ?limited else ?boom"
  have "outcome (generateContent (\<lambda>k. if k < 2 then Rejected ?limited else Rejected ?boom) 3) =
          Inl (if err_status (?err (nat 3 - 1)) = Some 429 then msg_high_demand
               else if is_server_error (?err (nat 3 - 1)) then msg_unavailable
               else if is_network_error (?err (nat 3 - 1)) then msg_network
               else if \<exists>k. int k < 3 \<and> err_status (?err k) = Some 429
                 then msg_high_demand
               else msg_unable (Some (?err (nat 3 - 1))))"
    using C10_exhausted_budget_message
            [of 3 "\<lambda>k. if k < 2 then Rejected ?limited else Rejected ?boom" ?err]
    by simp
  moreover have "\<exists>k. int k < 3 \<and> err_status (?err k) = Some 429"
    by (rule exI [of _ 0]) simp
  ultimately show
    "outcome (generateContent (\<lambda>k. if k < 2 then Rejected ?limited else Rejected ?boom) 3)
       = Inl msg_high_demand"
    using boom by simp
  have "outcome (generateContent (\<lambda>k. Rejected ?boom) 3) =
          Inl (if err_status ?boom = Some 429 then msg_high_demand
               else if is_server_error ?boom then msg_unavailable
               else if is_network_error ?boom then msg_network
               else if \<exists>k. int k < 3 \<and> err_status ?boom = Some 429
                 then msg_high_demand
               else msg_unable (Some ?boom))"
    using C10_exhausted_budget_message [of 3 "\<lambda>k. Rejected ?boom" "\<lambda>k. ?boom"]
    by simp
  then show "outcome (generateContent (\<lambda>k. Rejected ?boom) 3)
       = Inl (lit ''Unable to generate content: boom. Please try again.'')"
    using boom by (simp add: msg_unable_def lit_def)
qed

text \<open>
  The claim as it was stated fails when the last attempt is a network error: two rate
  limited attempts followed by \<open>Failed to fetch\<close> use up the budget of three, and the
  error raised is the network message, not the high demand message.
\<close>

theorem C10_network_last_counterexample:
  "generateContent
     (\<lambda>k. if k < 2
          then Rejected \<lparr>err_status = Some 429, err_message = lit ''Rate limit exceeded''\<rparr>
          else Rejected \<lparr>err_status = None, err_message = lit ''Failed to fetch''\<rparr>) 3
     = \<lparr>outcome = Inl msg_network, waits = [1000, 2000], calls = 3\<rparr>
   \<and> msg_network \<noteq> msg_high_demand"
proof
  show "msg_network \<noteq> msg_high_demand"
    by (simp add: msg_network_def msg_high_demand_def lit_def)
  have n: "is_network_error \<lparr>err_status = None, err_message = lit ''Failed to fetch''\<rparr>"
    by (simp add: is_network_error_def lit_def)
  have s: "\<not> is_server_error \<lparr>err_status = None, err_message = lit ''Failed to fetch''\<rparr>"
    by (simp add: is_server_error_def)
  show "generateContent
     (\<lambda>k. if k < 2
          then Rejected \<lparr>err_status = Some 429, err_message = lit ''Rate limit exceeded''\<rparr>
          else Rejected \<lparr>err_status = None, err_message = lit ''Failed to fetch''\<rparr>) 3
     = \<lparr>outcome = Inl msg_network, waits = [1000, 2000], calls = 3\<rparr>"
    by (simp add: generateContent_def retry_loop.simps n s called_def waited_def finished_def)
qed

section \<open>Properties of the chat endpoint\<close>

lemma lit_append: "lit (a @ b) = lit a @ lit b"
  by (simp add: lit_def)

lemma starts_with_append [simp]: "starts_with (p @ s) p"
  by (induction p) simp_all

lemma js_includes_here: "js_includes (p @ s) p"
  by (cases "p @ s") (use starts_with_append [of p s] in \<open>auto simp del: starts_with_append\<close>)

lemma js_includes_append: "js_includes (a @ p @ b) p"
  by (induction a) (simp_all add: js_includes_here)

lemma too_long_mentions: "js_includes msg_too_long (lit ''exceeds maximum length'')"
proof -
  have "''Invalid request: message exceeds maximum length of ''
        = ''Invalid request: message '' @ ''exceeds maximum length'' @ '' of ''"
    by simp
  then have eq: "msg_too_long = lit ''Invalid request: message '' @ lit ''exceeds maximum length''
        @ (lit '' of '' @ number_toString MAX_MESSAGE_LENGTH @ lit '' characters'')"
    unfolding msg_too_long_def by (simp only: lit_append append_assoc)
  show ?thesis unfolding eq by (rule js_includes_append)
qed

lemma history_item_mentions:
  "js_includes msg_history_item (lit ''history messages must have role and content'')"
proof -
  have "''Invalid request: history messages must have role and content''
        = ''Invalid request: '' @ ''history messages must have role and content'' @ ''''"
    by simp
  then have eq: "msg_history_item = lit ''Invalid request: ''
        @ lit ''history messages must have role and content'' @ lit ''''"
    unfolding msg_history_item_def by (simp only: lit_append)
  show ?thesis unfolding eq by (rule js_includes_append)
qed

lemma item_refused_null: "item_refused JNull = Inl (null_read_message (lit ''role''))"
  by (simp add: item_refused_def)

lemma nonempty_string_iff: "nonempty_string v \<longleftrightarrow> truthy v \<and> is_string v"
  by (cases v rule: nonempty_string.cases) simp_all

lemma item_refused_not_null: "item \<noteq> JNull \<Longrightarrow> item_refused item = Inr (\<not> entry_accepted item)"
  by (cases item) (auto simp: item_refused_def nonempty_string_iff)

lemma check_history_items_char:
  "check_history_items items =
     (case dropWhile entry_accepted items of
        [] \<Rightarrow> Inr None
      | bad # rest \<Rightarrow> if bad = JNull then Inl (null_read_message (lit ''role''))
                      else Inr (Some (bad_request msg_history_item)))"
proof (induction items)
  case Nil
  show ?case by simp
next
  case (Cons item items)
  show ?case
  proof (cases "item = JNull")
    case True
    then show ?thesis by (simp add: item_refused_null)
  next
    case False
    then show ?thesis using Cons by (simp add: item_refused_not_null)
  qed
qed

lemma chat_handler_invalid:
  "validate req = Inl r \<Longrightarrow>
   chat_handler race env contexts req = \<lparr>reply = r, generated = None, contexts_after = contexts\<rparr>"
  by (simp add: chat_handler_def early_return_def)

lemma chat_handler_valid:
  "validate req = Inr (sanitizedMessage, items) \<Longrightarrow>
   chat_handler race env contexts req =
     generate_and_reply race env contexts req sanitizedMessage items"
  by (simp add: chat_handler_def)

lemma generated_generate_and_reply:
  "generated (generate_and_reply race env contexts req sanitizedMessage items) =
     Some \<lparr>arg_userMessage = sanitizedMessage, arg_conversationHistory = items,
           arg_brandContext =
             fst (resolve_brand_context env contexts (req_brandContext req) (req_sessionId req))\<rparr>"
  by (simp add: generate_and_reply_def Let_def split: prod.splits)

lemma contexts_after_generate_and_reply:
  "contexts_after (generate_and_reply race env contexts req sanitizedMessage items) =
     snd (snd (resolve_brand_context env contexts (req_brandContext req) (req_sessionId req)))"
  by (simp add: generate_and_reply_def Let_def split: prod.splits)

lemma reply_status_generate_and_reply:
  "reply_status (reply (generate_and_reply race env contexts req sanitizedMessage items)) \<noteq> 400"
  by (simp add: generate_and_reply_def Let_def server_error_def ok_reply_def
        split: prod.splits sum.splits)

lemma resolve_provided_with_session:
  "sid \<noteq> [] \<Longrightarrow>
   resolve_brand_context env contexts (Some ctx) (Some sid) =
     (Some ctx, Some sid, contexts(sid \<mapsto> ctx))"
  by (simp add: resolve_brand_context_def store_set_def)

lemma resolve_provided_without_session:
  "\<not> string_truthy sessionId \<Longrightarrow>
   resolve_brand_context env contexts (Some ctx) sessionId =
     (Some ctx, Some (new_session_id env), contexts(new_session_id env \<mapsto> ctx))"
  by (simp add: resolve_brand_context_def store_set_def Let_def)

lemma resolve_stored:
  "sid \<noteq> [] \<Longrightarrow> contexts sid = Some ctx \<Longrightarrow>
   resolve_brand_context env contexts None (Some sid) = (Some ctx, Some sid, contexts)"
  by (simp add: resolve_brand_context_def store_has_def store_get_def)

lemma resolve_nothing:
  "\<not> string_truthy sessionId \<or> contexts (the sessionId) = None \<Longrightarrow>
   resolve_brand_context env contexts None sessionId = (None, sessionId, contexts)"
  by (cases sessionId) (auto simp: resolve_brand_context_def store_has_def)

lemma validate_too_long:
  "req_message req = Some (JStr m) \<Longrightarrow> length (sanitizeInput m) > MAX_MESSAGE_LENGTH \<Longrightarrow>
   validate req = Inl (bad_request msg_too_long)"
  by (auto simp: validate_def Let_def)

lemma validate_history_passes:
  "req_message req = Some (JStr m) \<Longrightarrow> 0 < length (sanitizeInput m) \<Longrightarrow>
   length (sanitizeInput m) \<le> MAX_MESSAGE_LENGTH \<Longrightarrow> history_checks_pass (req_history req) \<Longrightarrow>
   validate req =
     Inr (sanitizeInput m, case req_history req of Some (JArr items) \<Rightarrow> items | _ \<Rightarrow> [])"
  by (auto simp: validate_def Let_def history_checks_pass_def split: option.splits json.splits)

lemma sanitizeInput_word:
  assumes "w \<noteq> []" and "\<forall>x\<in>set w. \<not> is_whitespace x \<and> x \<noteq> 0"
  shows "sanitizeInput w = w"
proof -
  have "0 \<notin> set w" using assms(2) by auto
  then have "replace_nulls w = w" by (rule replace_nulls_id)
  moreover have "tokens (w @ []) = w # tokens []"
    using assms by (intro tokens_word_append) auto
  ultimately show ?thesis by (simp add: sanitizeInput_tokens)
qed

lemma sanitizeInput_letters: "0 < n \<Longrightarrow> sanitizeInput (replicate n 0x61) = replicate n 0x61"
  by (rule sanitizeInput_word) (auto simp: is_whitespace_def)

text \<open>
  Claim C5.  A request whose sanitised message is longer than 5000 characters is answered
  with status 400 and an error that mentions \<open>exceeds maximum length\<close>; the
  generator is not called and the store is unchanged.  A request whose sanitised message
  has exactly 5000 characters, and whose history passes its checks, passes the length
  check: the generator is called with the sanitised message and the status is not 400.
\<close>

theorem C5_message_length_limit:
  "(req_message req = Some (JStr m) \<and> length (sanitizeInput m) > 5000 \<longrightarrow>
      reply_status (reply (chat_handler race env contexts req)) = 400
      \<and> \<not> reply_success (reply (chat_handler race env contexts req))
      \<and> (\<exists>e. reply_error (reply (chat_handler race env contexts req)) = Some e
               \<and> js_includes e (lit ''exceeds maximum length''))
      \<and> generated (chat_handler race env contexts req) = None
      \<and> contexts_after (chat_handler race env contexts req) = contexts)
   \<and> (req_message req = Some (JStr m) \<and> length (sanitizeInput m) = 5000
        \<and> history_checks_pass (req_history req) \<longrightarrow>
      (\<exists>call. generated (chat_handler race env contexts req) = Some call
               \<and> arg_userMessage call = sanitizeInput m)
      \<and> reply_status (reply (chat_handler race env contexts req)) \<noteq> 400)"
proof (intro conjI impI)
  assume h: "req_message req = Some (JStr m) \<and> length (sanitizeInput m) > 5000"
  then have v: "validate req = Inl (bad_request msg_too_long)"
    by (simp add: validate_too_long MAX_MESSAGE_LENGTH_def)
  note r = chat_handler_invalid [OF v, of race env contexts]
  show "reply_status (reply (chat_handler race env contexts req)) = 400"
    by (simp add: r bad_request_def)
  show "\<not> reply_success (reply (chat_handler race env contexts req))"
    by (simp add: r bad_request_def)
  show "\<exists>e. reply_error (reply (chat_handler race env contexts req)) = Some e
               \<and> js_includes e (lit ''exceeds maximum length'')"
    using too_long_mentions by (simp add: r bad_request_def)
  show "generated (chat_handler race env contexts req) = None"
    by (simp add: r)
  show "contexts_after (chat_handler race env contexts req) = contexts"
    by (simp add: r)
next
  assume h: "req_message req = Some (JStr m) \<and> length (sanitizeInput m) = 5000
        \<and> history_checks_pass (req_history req)"
  then have v: "validate req =
     Inr (sanitizeInput m, case req_history req of Some (JArr items) \<Rightarrow> items | _ \<Rightarrow> [])"
    by (intro validate_history_passes) (simp_all add: MAX_MESSAGE_LENGTH_def)
  note r = chat_handler_valid [OF v, of race env contexts]
  show "\<exists>call. generated (chat_handler race env contexts req) = Some call
               \<and> arg_userMessage call = sanitizeInput m"
    by (simp add: r generated_generate_and_reply)
  show "reply_status (reply (chat_handler race env contexts req)) \<noteq> 400"
    by (simp add: r reply_status_generate_and_reply)
qed

theorem C5_message_length_limit_witness:
  "reply (chat_handler (\<lambda>call. Inr (lit ''Test marketing response''))
            \<lparr>now = 0, random_part = []\<rparr> Map.empty
            \<lparr>req_message = Some (JStr (replicate 5001 0x61)), req_history = None,
             req_brandContext = None, req_sessionId = None\<rparr>)
     = bad_request msg_too_long
   \<and> generated (chat_handler (\<lambda>call. Inr (lit ''Test marketing response''))
            \<lparr>now = 0, random_part = []\<rparr> Map.empty
            \<lparr>req_message = Some (JStr (replicate 5001 0x61)), req_history = None,
             req_brandContext = None, req_sessionId = None\<rparr>) = None
   \<and> map_option arg_userMessage
        (generated (chat_handler (\<lambda>call. Inr (lit ''Test marketing response''))
            \<lparr>now = 0, random_part = []\<rparr> Map.empty
            \<lparr>req_message = Some (JStr (replicate 5000 0x61)), req_history = None,
             req_brandContext = None, req_sessionId = None\<rparr>))
       = Some (replicate 5000 0x61)"
proof -
  let ?race = "\<lambda>call::generation_call. Inr (lit ''Test marketing response'') :: js_string + js_string"
  let ?env = "\<lparr>now = 0, random_part = []\<rparr>"
  let ?long = "\<lparr>req_message = Some (JStr (replicate 5001 0x61)), req_history = None,
             req_brandContext = None, req_sessionId = None\<rparr>"
  let ?max = "\<lparr>req_message = Some (JStr (replicate 5000 0x61)), req_history = None,
             req_brandContext = None, req_sessionId = None\<rparr>"
  have s1: "sanitizeInput (replicate 5001 0x61) = replicate 5001 0x61"
    by (rule sanitizeInput_letters) simp
  have s0: "sanitizeInput (replicate 5000 0x61) = replicate 5000 0x61"
    by (rule sanitizeInput_letters) simp
  have long: "generated (chat_handler ?race ?env Map.empty ?long) = None"
    using C5_message_length_limit [of ?long "replicate 5001 0x61" ?race ?env Map.empty]
    by (simp add: s1)
  have "validate ?long = Inl (bad_request msg_too_long)"
    by (rule validate_too_long [of _ "replicate 5001 0x61"])
       (simp_all add: s1 MAX_MESSAGE_LENGTH_def)
  then have rep: "reply (chat_handler ?race ?env Map.empty ?long) = bad_request msg_too_long"
    by (simp add: chat_handler_invalid)
  have "\<exists>call. generated (chat_handler ?race ?env Map.empty ?max) = Some call
               \<and> arg_userMessage call = sanitizeInput (replicate 5000 0x61)"
    using C5_message_length_limit [of ?max "replicate 5000 0x61" ?race ?env Map.empty]
    by (simp add: s0 history_checks_pass_def)
  then have "map_option arg_userMessage (generated (chat_handler ?race ?env Map.empty ?max))
       = Some (replicate 5000 0x61)"
    by (auto simp: s0)
  with long rep show ?thesis by simp
qed

lemma validate_history_array:
  assumes "req_message req = Some (JStr m)" and "0 < length (sanitizeInput m)"
      and "length (sanitizeInput m) \<le> MAX_MESSAGE_LENGTH"
      and "req_history req = Some (JArr items)" and "length items \<le> MAX_HISTORY_LENGTH"
  shows "validate req =
           (case dropWhile entry_accepted items of
              [] \<Rightarrow> Inr (sanitizeInput m, items)
            | bad # rest \<Rightarrow>
                if bad = JNull then Inl (server_error (null_read_message (lit ''role'')))
                else Inl (bad_request msg_history_item))"
proof (cases "dropWhile entry_accepted items")
  case Nil
  then show ?thesis
    using assms by (simp add: validate_def Let_def check_history_items_char del: dropWhile_eq_Nil_conv)
next
  case (Cons b rest)
  then show ?thesis
    using assms by (simp add: validate_def Let_def check_history_items_char)
qed

lemma length_lit [simp]: "length (lit s) = length s"
  by (simp add: lit_def)

lemma lit_eq_Nil [simp]: "lit s = [] \<longleftrightarrow> s = []"
  by (simp add: lit_def)

lemma sanitize_hello: "sanitizeInput (lit ''hello'') = lit ''hello''"
  by (rule sanitizeInput_word) (simp_all add: lit_def is_whitespace_def)

text \<open>
  Claim C6, amended.  For a request that passes checks 1 to 5 and carries a history whose
  entries are not \<open>null\<close>, the endpoint accepts the history, and calls the generator,
  exactly when every entry has a truthy \<open>role\<close> and a \<open>content\<close> that is a non-empty
  string.  Any entry violating this yields the 400 error that mentions
  \<open>history messages must have role and content\<close>; the generator is not called and
  the store is unchanged.  In particular an entry with a non-empty role whose content is
  the empty string is refused.
\<close>

theorem C6_history_entries:
  assumes "req_message req = Some (JStr m)" and "0 < length (sanitizeInput m)"
      and "length (sanitizeInput m) \<le> 5000"
      and "req_history req = Some (JArr items)" and "length items \<le> 50"
      and "JNull \<notin> set items"
  shows "((\<forall>item\<in>set items. entry_accepted item) \<longrightarrow>
            generated (chat_handler race env contexts req)
              = Some \<lparr>arg_userMessage = sanitizeInput m, arg_conversationHistory = items,
                      arg_brandContext =
                        fst (resolve_brand_context env contexts
                               (req_brandContext req) (req_sessionId req))\<rparr>)
       \<and> (\<not> (\<forall>item\<in>set items. entry_accepted item) \<longrightarrow>
            generated (chat_handler race env contexts req) = None
            \<and> contexts_after (chat_handler race env contexts req) = contexts
            \<and> reply (chat_handler race env contexts req) = bad_request msg_history_item)
       \<and> reply_status (bad_request msg_history_item) = 400
       \<and> js_includes msg_history_item (lit ''history messages must have role and content'')
       \<and> \<not> entry_accepted (JObj [(lit ''role'', JStr role), (lit ''content'', JStr [])])"
proof (intro conjI impI)
  note v = validate_history_array [of req m items]
  assume ok: "\<forall>item\<in>set items. entry_accepted item"
  then have d: "dropWhile entry_accepted items = []"
    by simp
  have "validate req = Inr (sanitizeInput m, items)"
    using assms(1-5) v by (simp add: d MAX_MESSAGE_LENGTH_def MAX_HISTORY_LENGTH_def
                        del: dropWhile_eq_Nil_conv)
  then show "generated (chat_handler race env contexts req)
              = Some \<lparr>arg_userMessage = sanitizeInput m, arg_conversationHistory = items,
                      arg_brandContext =
                        fst (resolve_brand_context env contexts
                               (req_brandContext req) (req_sessionId req))\<rparr>"
    by (simp add: chat_handler_valid generated_generate_and_reply)
next
  assume bad: "\<not> (\<forall>item\<in>set items. entry_accepted item)"
  then obtain b rest where d: "dropWhile entry_accepted items = b # rest"
    by (cases "dropWhile entry_accepted items") auto
  have "b \<in> set (dropWhile entry_accepted items)"
    by (simp add: d)
  then have "b \<in> set items"
    by (rule set_dropWhileD)
  then have b: "b \<noteq> JNull"
    using assms(6) by auto
  have v: "validate req = Inl (bad_request msg_history_item)"
    using assms(1-5) validate_history_array [of req m items] d b
    by (simp add: MAX_MESSAGE_LENGTH_def MAX_HISTORY_LENGTH_def)
  note r = chat_handler_invalid [OF v, of race env contexts]
  show "generated (chat_handler race env contexts req) = None" by (simp add: r)
  show "contexts_after (chat_handler race env contexts req) = contexts" by (simp add: r)
  show "reply (chat_handler race env contexts req) = bad_request msg_history_item"
    by (simp add: r)
next
  show "reply_status (bad_request msg_history_item) = 400" by (simp add: bad_request_def)
  show "js_includes msg_history_item (lit ''history messages must have role and content'')"
    by (rule history_item_mentions)
  show "\<not> entry_accepted (JObj [(lit ''role'', JStr role), (lit ''content'', JStr [])])"
    by (simp add: lit_def)
qed

theorem C6_history_entries_witness:
  "generated (chat_handler (\<lambda>call. Inr (lit ''Test response''))
       \<lparr>now = 0, random_part = []\<rparr> Map.empty
       \<lparr>req_message = Some (JStr (lit ''hello'')),
        req_history = Some (JArr [JObj [(lit ''role'', JStr (lit ''user'')),
                                       (lit ''content'', JStr (lit ''Test''))]]),
        req_brandContext = None, req_sessionId = None\<rparr>)
     = Some \<lparr>arg_userMessage = lit ''hello'',
             arg_conversationHistory = [JObj [(lit ''role'', JStr (lit ''user'')),
                                              (lit ''content'', JStr (lit ''Test''))]],
             arg_brandContext = None\<rparr>
   \<and> reply (chat_handler (\<lambda>call. Inr (lit ''Test response''))
       \<lparr>now = 0, random_part = []\<rparr> Map.empty
       \<lparr>req_message = Some (JStr (lit ''hello'')),
        req_history = Some (JArr [JObj [(lit ''role'', JStr (lit ''user'')),
                                       (lit ''content'', JNum 123)]]),
        req_brandContext = None, req_sessionId = None\<rparr>)
     = bad_request msg_history_item
   \<and> reply (chat_handler (\<lambda>call. Inr (lit ''Test response''))
       \<lparr>now = 0, random_part = []\<rparr> Map.empty
       \<lparr>req_message = Some (JStr (lit ''hello'')),
        req_history = Some (JArr [JObj [(lit ''role'', JStr (lit ''user''))]]),
        req_brandContext = None, req_sessionId = None\<rparr>)
     = bad_request msg_history_item"
proof -
  let ?race = "\<lambda>call::generation_call. Inr (lit ''Test response'') :: js_string + js_string"
  let ?env = "\<lparr>now = 0, random_part = []\<rparr>"
  let ?good = "JObj [(lit ''role'', JStr (lit ''user'')), (lit ''content'', JStr (lit ''Test''))]"
  let ?num = "JObj [(lit ''role'', JStr (lit ''user'')), (lit ''content'', JNum 123)]"
  let ?missing = "JObj [(lit ''role'', JStr (lit ''user''))]"
  let ?req = "\<lambda>items. \<lparr>req_message = Some (JStr (lit ''hello'')),
        req_history = Some (JArr items), req_brandContext = None, req_sessionId = None\<rparr>"
  have m: "req_message (?req items) = Some (JStr (lit ''hello''))"
          "0 < length (sanitizeInput (lit ''hello''))"
          "length (sanitizeInput (lit ''hello'')) \<le> 5000"
          "req_history (?req items) = Some (JArr items)" for items
    by (simp_all add: sanitize_hello)
  have good: "\<forall>item\<in>set [?good]. entry_accepted item" by (simp add: lit_def)
  have num: "\<not> (\<forall>item\<in>set [?num]. entry_accepted item)" by (simp add: lit_def)
  have missing: "\<not> (\<forall>item\<in>set [?missing]. entry_accepted item)" by (simp add: lit_def)
  have res: "fst (resolve_brand_context ?env Map.empty None None) = None"
    by (simp add: resolve_brand_context_def)
  note t = C6_history_entries [where race = ?race and env = ?env and contexts = Map.empty,
              OF m(1) m(2) m(3) m(4)]
  have a: "generated (chat_handler ?race ?env Map.empty (?req [?good]))
     = Some \<lparr>arg_userMessage = lit ''hello'', arg_conversationHistory = [?good],
             arg_brandContext = None\<rparr>"
    using t [of "[?good]", THEN conjunct1, THEN mp, OF _ _ good]
    by (simp only: sanitize_hello) (simp add: res)
  have b: "reply (chat_handler ?race ?env Map.empty (?req [?num])) = bad_request msg_history_item"
    using t [of "[?num]", THEN conjunct2, THEN conjunct1, THEN mp, OF _ _ num]
    by simp
  have c: "reply (chat_handler ?race ?env Map.empty (?req [?missing]))
             = bad_request msg_history_item"
    using t [of "[?missing]", THEN conjunct2, THEN conjunct1, THEN mp, OF _ _ missing]
    by simp
  from a b c show ?thesis by (simp only: simp_thms)
qed

text \<open>
  The claim as it was stated accepts an entry whose content is the empty string.  The
  code refuses it: \<open>!msg.content\<close> is true for the empty string.
\<close>

theorem C6_empty_content_counterexample:
  "reply (chat_handler (\<lambda>call. Inr (lit ''Test response''))
       \<lparr>now = 0, random_part = []\<rparr> Map.empty
       \<lparr>req_message = Some (JStr (lit ''hello'')),
        req_history = Some (JArr [JObj [(lit ''role'', JStr (lit ''user'')),
                                       (lit ''content'', JStr [])]]),
        req_brandContext = None, req_sessionId = None\<rparr>)
     = bad_request msg_history_item
   \<and> reply_status (bad_request msg_history_item) = 400
   \<and> generated (chat_handler (\<lambda>call. Inr (lit ''Test response''))
       \<lparr>now = 0, random_part = []\<rparr> Map.empty
       \<lparr>req_message = Some (JStr (lit ''hello'')),
        req_history = Some (JArr [JObj [(lit ''role'', JStr (lit ''user'')),
                                       (lit ''content'', JStr [])]]),
        req_brandContext = None, req_sessionId = None\<rparr>) = None"
proof -
  let ?item = "JObj [(lit ''role'', JStr (lit ''user'')), (lit ''content'', JStr [])]"
  let ?req = "\<lparr>req_message = Some (JStr (lit ''hello'')),
        req_history = Some (JArr [?item]), req_brandContext = None, req_sessionId = None\<rparr>"
  have d: "dropWhile entry_accepted [?item] = [?item]"
    by (simp add: lit_def)
  have "validate ?req =
           (case dropWhile entry_accepted [?item] of
              [] \<Rightarrow> Inr (sanitizeInput (lit ''hello''), [?item])
            | bad # rest \<Rightarrow>
                if bad = JNull then Inl (server_error (null_read_message (lit ''role'')))
                else Inl (bad_request msg_history_item))"
    by (rule validate_history_array)
       (simp_all add: sanitize_hello MAX_MESSAGE_LENGTH_def MAX_HISTORY_LENGTH_def)
  then have "validate ?req = Inl (bad_request msg_history_item)"
    by (simp only: d list.case) simp
  then show ?thesis
    by (simp add: chat_handler_invalid bad_request_def)
qed

lemma new_session_id_nonempty: "new_session_id env \<noteq> []"
  by (simp add: new_session_id_def lit_def)

lemma reply_generate_and_reply:
  "reply (generate_and_reply race env contexts req sanitizedMessage items) =
     (case resolve_brand_context env contexts (req_brandContext req) (req_sessionId req) of
        (effective, effectiveSessionId, contexts') \<Rightarrow>
          (case race \<lparr>arg_userMessage = sanitizedMessage, arg_conversationHistory = items,
                       arg_brandContext = effective\<rparr> of
             Inl errorMessage \<Rightarrow> server_error errorMessage
           | Inr text \<Rightarrow> ok_reply text effectiveSessionId))"
  by (simp add: generate_and_reply_def Let_def split: prod.splits)

text \<open>
  Claim C7, amended.  A valid request that carries the empty object \<open>{}\<close> as its brand
  context is treated as a request with a brand context, because an object is truthy
  also when it is empty.  With a non-empty session id, \<open>{}\<close> is stored under that id,
  replacing what was stored there, and is the effective context.  Without a session id
  (or with the empty string), a new session id is made, \<open>{}\<close> is stored under it, and
  a successful reply carries the new id.
\<close>

theorem C7_empty_context_is_a_context:
  assumes "validate req = Inr (sanitizedMessage, items)"
      and "req_brandContext req = Some Map.empty"
  shows "(\<forall>sid. req_sessionId req = Some sid \<and> sid \<noteq> [] \<longrightarrow>
            contexts_after (chat_handler race env contexts req) = contexts(sid \<mapsto> Map.empty)
            \<and> generated (chat_handler race env contexts req)
                = Some \<lparr>arg_userMessage = sanitizedMessage, arg_conversationHistory = items,
                        arg_brandContext = Some Map.empty\<rparr>)
       \<and> (\<not> string_truthy (req_sessionId req) \<longrightarrow>
            contexts_after (chat_handler race env contexts req)
              = contexts(new_session_id env \<mapsto> Map.empty)
            \<and> generated (chat_handler race env contexts req)
                = Some \<lparr>arg_userMessage = sanitizedMessage, arg_conversationHistory = items,
                        arg_brandContext = Some Map.empty\<rparr>
            \<and> (\<forall>text. race \<lparr>arg_userMessage = sanitizedMessage,
                              arg_conversationHistory = items,
                              arg_brandContext = Some Map.empty\<rparr> = Inr text \<longrightarrow>
                   reply_sessionId (reply (chat_handler race env contexts req))
                     = Some (new_session_id env)))"
proof (intro conjI allI impI)
  note h = chat_handler_valid [OF assms(1), of race env contexts]
  fix sid
  assume s: "req_sessionId req = Some sid \<and> sid \<noteq> []"
  then have r: "resolve_brand_context env contexts (req_brandContext req) (req_sessionId req)
                 = (Some Map.empty, Some sid, contexts(sid \<mapsto> Map.empty))"
    using assms(2) by (simp add: resolve_provided_with_session)
  show "contexts_after (chat_handler race env contexts req) = contexts(sid \<mapsto> Map.empty)"
    by (simp add: h contexts_after_generate_and_reply r)
  show "generated (chat_handler race env contexts req)
                = Some \<lparr>arg_userMessage = sanitizedMessage, arg_conversationHistory = items,
                        arg_brandContext = Some Map.empty\<rparr>"
    by (simp add: h generated_generate_and_reply r)
next
  note h = chat_handler_valid [OF assms(1), of race env contexts]
  assume "\<not> string_truthy (req_sessionId req)"
  then have r: "resolve_brand_context env contexts (req_brandContext req) (req_sessionId req)
                 = (Some Map.empty, Some (new_session_id env),
                    contexts(new_session_id env \<mapsto> Map.empty))"
    using assms(2) by (simp add: resolve_provided_without_session)
  show "contexts_after (chat_handler race env contexts req)
              = contexts(new_session_id env \<mapsto> Map.empty)"
    by (simp add: h contexts_after_generate_and_reply r)
  show "generated (chat_handler race env contexts req)
                = Some \<lparr>arg_userMessage = sanitizedMessage, arg_conversationHistory = items,
                        arg_brandContext = Some Map.empty\<rparr>"
    by (simp add: h generated_generate_and_reply r)
  fix out
  assume "race \<lparr>arg_userMessage = sanitizedMessage, arg_conversationHistory = items,
                 arg_brandContext = Some Map.empty\<rparr> = Inr out"
  then show "reply_sessionId (reply (chat_handler race env contexts req))
                     = Some (new_session_id env)"
    by (simp add: h reply_generate_and_reply r ok_reply_def new_session_id_nonempty)
qed

lemma validate_hello:
  "validate \<lparr>req_message = Some (JStr (lit ''hello'')), req_history = None,
             req_brandContext = ctx, req_sessionId = sid\<rparr> = Inr (lit ''hello'', [])"
  by (simp add: validate_def Let_def sanitize_hello MAX_MESSAGE_LENGTH_def)

theorem C7_empty_context_is_a_context_witness:
  "map_option (\<lambda>ctx. ctx BrandName)
     (contexts_after
        (chat_handler (\<lambda>call. Inr (lit ''Test response'')) \<lparr>now = 0, random_part = []\<rparr>
           [lit ''s1'' \<mapsto> [BrandName \<mapsto> Text (lit ''TechCorp'')]]
           \<lparr>req_message = Some (JStr (lit ''hello'')), req_history = None,
            req_brandContext = Some Map.empty, req_sessionId = Some (lit ''s1'')\<rparr>)
        (lit ''s1''))
     = Some None
   \<and> reply_sessionId
        (reply (chat_handler (\<lambda>call. Inr (lit ''Test response''))
           \<lparr>now = 0, random_part = []\<rparr>
           [lit ''s1'' \<mapsto> [BrandName \<mapsto> Text (lit ''TechCorp'')]]
           \<lparr>req_message = Some (JStr (lit ''hello'')), req_history = None,
            req_brandContext = Some Map.empty, req_sessionId = None\<rparr>))
     = Some (new_session_id \<lparr>now = 0, random_part = []\<rparr>)"
proof -
  let ?race = "\<lambda>call::generation_call. Inr (lit ''Test response'') :: js_string + js_string"
  let ?env = "\<lparr>now = 0, random_part = []\<rparr>"
  let ?contexts = "[lit ''s1'' \<mapsto> [BrandName \<mapsto> Text (lit ''TechCorp'')]]"
  let ?req = "\<lambda>sid. \<lparr>req_message = Some (JStr (lit ''hello'')), req_history = None,
            req_brandContext = Some Map.empty, req_sessionId = sid\<rparr>"
  note t = C7_empty_context_is_a_context [where race = ?race and env = ?env
             and contexts = ?contexts, OF validate_hello]
  have "contexts_after (chat_handler ?race ?env ?contexts (?req (Some (lit ''s1''))))
          = ?contexts(lit ''s1'' \<mapsto> Map.empty)"
    using t [of "Some Map.empty" "Some (lit ''s1'')"] by simp
  then have a: "map_option (\<lambda>ctx. ctx BrandName)
     (contexts_after (chat_handler ?race ?env ?contexts (?req (Some (lit ''s1'')))) (lit ''s1''))
     = Some None"
    by simp
  have b: "reply_sessionId (reply (chat_handler ?race ?env ?contexts (?req None)))
             = Some (new_session_id ?env)"
    using t [of "Some Map.empty" None] by simp
  from a b show ?thesis by (simp only: simp_thms)
qed

text \<open>
  The claim as it was stated says that \<open>{}\<close> leaves the stored context of the session
  in place and makes no new session.  In the code the stored \<open>brandName\<close> is gone
  after the request, the generator receives \<open>{}\<close>, and a request without a session id
  stores a record under a new id.
\<close>

theorem C7_empty_context_counterexample:
  "map_option (\<lambda>ctx. ctx BrandName)
     ([lit ''s1'' \<mapsto> [BrandName \<mapsto> Text (lit ''TechCorp'')]] (lit ''s1''))
     = Some (Some (Text (lit ''TechCorp'')))
   \<and> map_option (\<lambda>ctx. ctx BrandName)
     (contexts_after
        (chat_handler (\<lambda>call. Inr (lit ''Test response'')) \<lparr>now = 0, random_part = []\<rparr>
           [lit ''s1'' \<mapsto> [BrandName \<mapsto> Text (lit ''TechCorp'')]]
           \<lparr>req_message = Some (JStr (lit ''hello'')), req_history = None,
            req_brandContext = Some Map.empty, req_sessionId = Some (lit ''s1'')\<rparr>)
        (lit ''s1''))
     = Some None
   \<and> map_option (\<lambda>call. map_option (\<lambda>ctx. ctx BrandName) (arg_brandContext call))
       (generated
        (chat_handler (\<lambda>call. Inr (lit ''Test response'')) \<lparr>now = 0, random_part = []\<rparr>
           [lit ''s1'' \<mapsto> [BrandName \<mapsto> Text (lit ''TechCorp'')]]
           \<lparr>req_message = Some (JStr (lit ''hello'')), req_history = None,
            req_brandContext = Some Map.empty, req_sessionId = Some (lit ''s1'')\<rparr>))
     = Some (Some None)
   \<and> object_truthy
        (contexts_after
          (chat_handler (\<lambda>call. Inr (lit ''Test response'')) \<lparr>now = 0, random_part = []\<rparr>
             Map.empty
             \<lparr>req_message = Some (JStr (lit ''hello'')), req_history = None,
              req_brandContext = Some Map.empty, req_sessionId = None\<rparr>)
          (new_session_id \<lparr>now = 0, random_part = []\<rparr>))"
  by (simp add: chat_handler_valid [OF validate_hello] contexts_after_generate_and_reply
        generated_generate_and_reply resolve_provided_with_session
        resolve_provided_without_session)

text \<open>
  Claim C3, amended.  For every non-empty session id \<open>s\<close> and brand context \<open>C\<close>:
  after a valid chat request that carries \<open>C\<close> and \<open>s\<close>, a following valid chat request
  with the session id \<open>s\<close> and no brand context calls the generator with \<open>C\<close> as its
  effective brand context.
\<close>

theorem C3_session_round_trip:
  assumes "sid \<noteq> []"
      and "validate first = Inr (m1, h1)"
      and "req_brandContext first = Some ctx" and "req_sessionId first = Some sid"
      and "validate second = Inr (m2, h2)"
      and "req_brandContext second = None" and "req_sessionId second = Some sid"
  shows "generated (chat_handler race2 env2
                      (contexts_after (chat_handler race1 env1 contexts first)) second)
           = Some \<lparr>arg_userMessage = m2, arg_conversationHistory = h2,
                   arg_brandContext = Some ctx\<rparr>"
proof -
  have "contexts_after (chat_handler race1 env1 contexts first) = contexts(sid \<mapsto> ctx)"
    using assms(1,3,4)
    by (simp add: chat_handler_valid [OF assms(2)] contexts_after_generate_and_reply
          resolve_provided_with_session)
  moreover have "resolve_brand_context env2 (contexts(sid \<mapsto> ctx)) None (Some sid)
                   = (Some ctx, Some sid, contexts(sid \<mapsto> ctx))"
    using assms(1) by (intro resolve_stored) simp_all
  ultimately show ?thesis
    using assms(6,7)
    by (simp add: chat_handler_valid [OF assms(5)] generated_generate_and_reply)
qed

theorem C3_session_round_trip_witness:
  "generated
     (chat_handler (\<lambda>call. Inr (lit ''Test response'')) \<lparr>now = 1, random_part = []\<rparr>
        (contexts_after
           (chat_handler (\<lambda>call. Inr (lit ''Test response'')) \<lparr>now = 0, random_part = []\<rparr>
              Map.empty
              \<lparr>req_message = Some (JStr (lit ''hello'')), req_history = None,
               req_brandContext = Some [BrandName \<mapsto> Text (lit ''TechCorp'')],
               req_sessionId = Some (lit ''s1'')\<rparr>))
        \<lparr>req_message = Some (JStr (lit ''hello'')), req_history = None,
         req_brandContext = None, req_sessionId = Some (lit ''s1'')\<rparr>)
     = Some \<lparr>arg_userMessage = lit ''hello'', arg_conversationHistory = [],
             arg_brandContext = Some [BrandName \<mapsto> Text (lit ''TechCorp'')]\<rparr>"
  by (rule C3_session_round_trip [where sid = "lit ''s1''", OF _ validate_hello _ _ validate_hello])
     simp_all

text \<open>
  The claim as it was stated holds for every session id.  The empty string is falsy:
  the first request then stores its context under a new id, and the second request,
  with the same empty session id, has no effective brand context.
\<close>

theorem C3_empty_session_id_counterexample:
  "map_option (\<lambda>call. object_truthy (arg_brandContext call))
     (generated
       (chat_handler (\<lambda>call. Inr (lit ''Test response'')) \<lparr>now = 1, random_part = []\<rparr>
        (contexts_after
           (chat_handler (\<lambda>call. Inr (lit ''Test response'')) \<lparr>now = 0, random_part = []\<rparr>
              Map.empty
              \<lparr>req_message = Some (JStr (lit ''hello'')), req_history = None,
               req_brandContext = Some [BrandName \<mapsto> Text (lit ''TechCorp'')],
               req_sessionId = Some []\<rparr>))
        \<lparr>req_message = Some (JStr (lit ''hello'')), req_history = None,
         req_brandContext = None, req_sessionId = Some []\<rparr>))
     = Some False"
  by (simp add: chat_handler_valid [OF validate_hello] generated_generate_and_reply
        resolve_nothing)

section \<open>Properties of the session store\<close>

text \<open>
  Claim C8, amended.  After \<open>update(s, P)\<close> on a store that holds \<open>E\<close> for \<open>s\<close>, the
  stored context has, for each member, the value of \<open>P\<close> when \<open>P\<close> owns that member
  and the value of \<open>E\<close> otherwise: members that \<open>P\<close> does not own do not overwrite
  those of \<open>E\<close>, while a member that \<open>P\<close> owns with the value \<open>undefined\<close> does.  When
  no record exists for \<open>s\<close>, the update creates one equal to \<open>P\<close>.  The records of
  other sessions are unchanged.
\<close>

theorem C8_update_merges_own_members:
  "(contexts sid = Some existing \<longrightarrow>
      (\<exists>merged. store_update contexts sid partial sid = Some merged
         \<and> (\<forall>f. merged f = (case partial f of None \<Rightarrow> existing f | Some v \<Rightarrow> Some v))))
   \<and> (contexts sid = None \<longrightarrow> store_update contexts sid partial sid = Some partial)
   \<and> (\<forall>other. other \<noteq> sid \<longrightarrow> store_update contexts sid partial other = contexts other)"
proof (intro conjI impI allI)
  assume "contexts sid = Some existing"
  then have "store_update contexts sid partial sid = Some (existing ++ partial)"
    by (simp add: store_update_def)
  moreover have "\<forall>f. (existing ++ partial) f
                    = (case partial f of None \<Rightarrow> existing f | Some v \<Rightarrow> Some v)"
    by (simp add: map_add_def)
  ultimately show "\<exists>merged. store_update contexts sid partial sid = Some merged
         \<and> (\<forall>f. merged f = (case partial f of None \<Rightarrow> existing f | Some v \<Rightarrow> Some v))"
    by blast
next
  assume "contexts sid = None"
  then show "store_update contexts sid partial sid = Some partial"
    by (simp add: store_update_def)
next
  fix other
  assume "other \<noteq> sid"
  then show "store_update contexts sid partial other = contexts other"
    by (simp add: store_update_def)
qed

theorem C8_update_merges_own_members_witness:
  "map_option (\<lambda>ctx. map (read_field ctx) [BrandName, BrandVoice, TargetAudience, Industry])
     (store_update
        [lit ''session123'' \<mapsto> [BrandName \<mapsto> Text (lit ''TechCorp''),
                                   BrandVoice \<mapsto> Text (lit ''Professional'')]]
        (lit ''session123'') [BrandVoice \<mapsto> Text (lit ''Casual'')] (lit ''session123''))
     = Some [Text (lit ''TechCorp''), Text (lit ''Casual''), Undefined, Undefined]
   \<and> map_option (\<lambda>ctx. map (read_field ctx) [BrandName, BrandVoice, TargetAudience, Industry])
     (store_update Map.empty (lit ''newsession'') [BrandName \<mapsto> Text (lit ''NewBrand'')]
        (lit ''newsession''))
     = Some [Text (lit ''NewBrand''), Undefined, Undefined, Undefined]"
proof -
  let ?E = "[BrandName \<mapsto> Text (lit ''TechCorp''), BrandVoice \<mapsto> Text (lit ''Professional'')]"
  let ?P = "[BrandVoice \<mapsto> Text (lit ''Casual'')]"
  let ?N = "[BrandName \<mapsto> Text (lit ''NewBrand'')]"
  obtain merged where m: "store_update [lit ''session123'' \<mapsto> ?E] (lit ''session123'') ?P
                            (lit ''session123'') = Some merged"
      "\<forall>f. merged f = (case ?P f of None \<Rightarrow> ?E f | Some v \<Rightarrow> Some v)"
    using C8_update_merges_own_members
            [of "[lit ''session123'' \<mapsto> ?E]" "lit ''session123''" ?E ?P]
    by auto
  have a: "map (read_field merged) [BrandName, BrandVoice, TargetAudience, Industry]
             = [Text (lit ''TechCorp''), Text (lit ''Casual''), Undefined, Undefined]"
    by (simp add: read_field_def m(2))
  have "store_update Map.empty (lit ''newsession'') ?N (lit ''newsession'') = Some ?N"
    using C8_update_merges_own_members [of Map.empty "lit ''newsession''" _ ?N]
    by simp
  then have b: "map_option (\<lambda>ctx. map (read_field ctx) [BrandName, BrandVoice, TargetAudience, Industry])
     (store_update Map.empty (lit ''newsession'') ?N (lit ''newsession''))
     = Some [Text (lit ''NewBrand''), Undefined, Undefined, Undefined]"
    by (simp add: read_field_def)
  from a b m(1) show ?thesis by simp
qed

text \<open>
  The claim as it was stated says that a member of \<open>P\<close> that is \<open>undefined\<close> does not
  overwrite the member of \<open>E\<close>.  The object spread copies every own member: after
  \<open>update(s, { brandName: undefined })\<close> on \<open>{ brandName: 'TechCorp' }\<close> the stored
  \<open>brandName\<close> reads \<open>undefined\<close>.
\<close>

theorem C8_undefined_member_counterexample:
  "read_field [BrandName \<mapsto> Undefined] BrandName = Undefined
   \<and> read_field [BrandName \<mapsto> Text (lit ''TechCorp'')] BrandName = Text (lit ''TechCorp'')
   \<and> map_option (\<lambda>ctx. read_field ctx BrandName)
       (store_update [lit ''session123'' \<mapsto> [BrandName \<mapsto> Text (lit ''TechCorp'')]]
          (lit ''session123'') [BrandName \<mapsto> Undefined] (lit ''session123''))
     = Some Undefined
   \<and> Undefined \<noteq> Text (lit ''TechCorp'')"
  by (simp add: read_field_def store_update_def)

section \<open>Properties of the client request layer\<close>

declare sendMessage.simps [simp del]

lemma not_fetch_error:
  "\<not> js_includes client_unavailable (lit ''fetch'')"
  "\<not> js_includes client_unavailable (lit ''Failed to fetch'')"
  by (simp_all add: client_unavailable_def lit_def)

lemma try_block_server_error:
  assumes "resp_status r \<ge> 500"
  shows "try_block retryCount r =
           (if retryCount < client_maxRetries then Retry else Throw client_unavailable)"
proof -
  have "\<not> response_ok r" using assms by (simp add: response_ok_def)
  moreover have "resp_status r \<noteq> 429" "resp_status r \<noteq> 408" using assms by simp_all
  moreover have "catch_block retryCount (new_Error client_unavailable) = Throw client_unavailable"
    using not_fetch_error by (simp add: catch_block_def new_Error_def lit_def)
  ultimately show ?thesis using assms by (simp add: try_block_def Let_def)
qed

text \<open>
  Claim C9.  When the server answers every attempt with a status of 500 or more,
  \<open>sendMessage\<close> makes three \<open>fetch\<close> calls in all, the first attempt and two
  retries, waits 1000 ms before the first retry and 2000 ms before the second, and
  then fails with the temporarily unavailable error.
\<close>

theorem C9_server_errors_exhaust_client_retries:
  assumes "\<forall>k<3. \<exists>r. fetch_at k = Responded r \<and> resp_status r \<ge> 500"
  shows "sendMessage fetch_at 0
           = \<lparr>settled = Inl client_unavailable, delays = [1000, 2000], fetches = 3\<rparr>"
proof -
  obtain r0 r1 r2 where r:
      "fetch_at 0 = Responded r0" "resp_status r0 \<ge> 500"
      "fetch_at (Suc 0) = Responded r1" "resp_status r1 \<ge> 500"
      "fetch_at (Suc (Suc 0)) = Responded r2" "resp_status r2 \<ge> 500"
    using assms [rule_format, of 0] assms [rule_format, of "Suc 0"]
          assms [rule_format, of "Suc (Suc 0)"]
    by auto
  have s2: "sendMessage fetch_at (Suc (Suc 0))
              = \<lparr>settled = Inl client_unavailable, delays = [], fetches = 1\<rparr>"
    using r by (subst sendMessage.simps) (simp add: try_block_server_error client_maxRetries_def)
  have s1: "sendMessage fetch_at (Suc 0)
              = \<lparr>settled = Inl client_unavailable, delays = [2000], fetches = 2\<rparr>"
    using r by (subst sendMessage.simps)
               (simp add: try_block_server_error client_maxRetries_def s2)
  show ?thesis
    using r by (subst sendMessage.simps)
               (simp add: try_block_server_error client_maxRetries_def s1)
qed

theorem C9_server_errors_exhaust_client_retries_witness:
  "sendMessage
     (\<lambda>k. Responded \<lparr>resp_status = 503,
                       resp_json = Inr \<lparr>body_success = False, body_response = None,
                                         body_error = Some (lit ''Service unavailable''),
                                         body_sessionId = None\<rparr>\<rparr>) 0
     = \<lparr>settled = Inl client_unavailable, delays = [1000, 2000], fetches = 3\<rparr>"
  by (rule C9_server_errors_exhaust_client_retries) simp


end
